theory Spec2Isabelle
  imports Complex_Main "HOL-Library.Multiset" "HOL-Library.Log_Nat"
begin

text \<open>
  A model of the vault tracker of boros-vault-monitor: the snapshot store
  (\<open>stateManager.ts\<close>), the filled predicate, the monitor loop with its three detection
  steps and the live-vault query (\<open>vaultMonitor.ts\<close>), followed by the properties of
  the specification that were checked against them. The RPC endpoint, the clock and the
  disk are inputs of the model; notifications and caught errors are recorded in the
  tracker's state.
\<close>

section \<open>Configuration (config.ts)\<close>

text \<open>
  Only the two settings the tracked code reads are modelled.

  \<^item> \<open>START_BLOCK\<close> is \<open>parseInt(env)\<close> or \<open>undefined\<close>; \<open>None\<close> stands for
    \<open>undefined\<close> (and for \<open>NaN\<close>, which is falsy in the same way under \<open>||\<close>).
  \<^item> \<open>FILLED_THRESHOLD_PERCENT\<close> is a JavaScript number (\<open>parseFloat\<close> of the
    setting). It is held as the exact rational value of that binary64 number. A
    threshold that is \<open>NaN\<close> or infinite, or whose product with 100 overflows to
    \<open>Infinity\<close>, makes \<open>BigInt(...)\<close> throw and is outside the model.
\<close>

record config =
  START_BLOCK :: "int option"
  FILLED_THRESHOLD_PERCENT :: rat

subsection \<open>Arithmetic on numbers\<close>

text \<open>
  The operator \<open>*\<close> on JavaScript numbers returns the binary64 value nearest to the exact
  product, ties going to the even significand. \<open>round64\<close> is that rounding of a rational:
  a value with \<open>2 ^ e \<le> \<bar>x\<bar> < 2 ^ (e + 1)\<close> is rounded to a multiple of
  \<open>2 ^ (e - 52)\<close> (53 significant bits), and to a multiple of \<open>2 ^ (- 1074)\<close> below the
  normal range. \<open>floorLog2\<close> finds \<open>e\<close> from the bit lengths of numerator and
  denominator. Overflow to \<open>Infinity\<close> (at \<open>2 ^ 1024\<close>) is not represented.
\<close>

definition pow2 :: "int \<Rightarrow> rat" where
  "pow2 k = (if 0 \<le> k then 2 ^ nat k else 1 / 2 ^ nat (- k))"

definition floorLog2 :: "rat \<Rightarrow> int" where
  "floorLog2 a =
     (case quotient_of a of (p, q) \<Rightarrow>
        (let d = bitlen p - bitlen q in if pow2 d \<le> a then d else d - 1))"

definition roundHalfEven :: "rat \<Rightarrow> int" where
  "roundHalfEven x =
     (let n = \<lfloor>x\<rfloor>; r = x - of_int n
      in if r < 1 / 2 then n else if 1 / 2 < r then n + 1 else if even n then n else n + 1)"

definition round64 :: "rat \<Rightarrow> rat" where
  "round64 x =
     (if x = 0 then 0
      else (let e = max (floorLog2 \<bar>x\<bar>) (- 1022); q = pow2 (e - 52)
            in of_int (roundHalfEven (x / q)) * q))"


section \<open>The filled predicate (vaultMonitor.ts, isVaultFilled)\<close>

text \<open>
  The operator \<open>/\<close> on JavaScript \<open>bigint\<close> values truncates towards zero; HOL's
  \<open>div\<close> on \<open>int\<close> rounds down. Division by \<open>0n\<close> throws a \<open>RangeError\<close>; both call
  sites test the divisor first, so that branch is never reached.
\<close>

definition bigint_div :: "int \<Rightarrow> int \<Rightarrow> int" where
  "bigint_div a b = sgn a * sgn b * (\<bar>a\<bar> div \<bar>b\<bar>)"

text \<open>\<open>BigInt(Math.floor(CONFIG.FILLED_THRESHOLD_PERCENT * 100))\<close>.\<close>

definition thresholdBasisPoints :: "config \<Rightarrow> int" where
  "thresholdBasisPoints cfg = \<lfloor>round64 (FILLED_THRESHOLD_PERCENT cfg * 100)\<rfloor>"

definition isVaultFilled :: "config \<Rightarrow> int \<Rightarrow> int \<Rightarrow> bool" where
  "isVaultFilled cfg currentSupply cap =
     (if cap = 0 then False
      else thresholdBasisPoints cfg \<le> bigint_div (currentSupply * 10000) cap)"

section \<open>Strings and big integers of the JavaScript runtime\<close>

text \<open>
  Strings are lists of bytes. \<open>toLowerCase\<close> is modelled on ASCII, which is all a
  hexadecimal contract address contains.
\<close>

definition lowerChar :: "char \<Rightarrow> char" where
  "lowerChar c =
     (let k = (of_char c :: nat) in if 65 \<le> k \<and> k \<le> 90 then char_of (k + 32) else c)"

definition toLowerCase :: "string \<Rightarrow> string" where
  "toLowerCase s = map lowerChar s"

text \<open>\<open>bigint.toString()\<close>: decimal digits, most significant first, \<open>-\<close> for a negative value.\<close>

definition digitChar :: "nat \<Rightarrow> char" where
  "digitChar d = char_of (48 + d)"

function digitsOf :: "nat \<Rightarrow> string" where
  "digitsOf n = (if n < 10 then [digitChar n] else digitsOf (n div 10) @ [digitChar (n mod 10)])"
  by pat_completeness auto
termination
  by (relation "measure (\<lambda>n. n)") auto

declare digitsOf.simps [simp del]

definition bigint_toString :: "int \<Rightarrow> string" where
  "bigint_toString n =
     (if n < 0 then CHR ''-'' # digitsOf (nat (- n)) else digitsOf (nat n))"

text \<open>
  \<open>BigInt(s)\<close> on a string (StringToBigInt of the language standard): surrounding white
  space is dropped, the empty string is \<open>0n\<close>, a decimal literal may carry a sign, and the
  prefixes \<open>0x\<close>, \<open>0o\<close>, \<open>0b\<close> select another radix (without sign). \<open>None\<close> is the
  \<open>SyntaxError\<close> that \<open>BigInt\<close> throws on any other text. White space is the ASCII part
  of the standard's set.
\<close>

definition charDigit :: "char \<Rightarrow> nat option" where
  "charDigit c =
     (let k = (of_char c :: nat) in
      if 48 \<le> k \<and> k \<le> 57 then Some (k - 48)
      else if 97 \<le> k \<and> k \<le> 102 then Some (k - 87)
      else if 65 \<le> k \<and> k \<le> 70 then Some (k - 55)
      else None)"

fun parseDigits :: "nat \<Rightarrow> nat \<Rightarrow> string \<Rightarrow> nat option" where
  "parseDigits b acc [] = Some acc"
| "parseDigits b acc (c # cs) =
     (case charDigit c of
        None \<Rightarrow> None
      | Some d \<Rightarrow> if d < b then parseDigits b (acc * b + d) cs else None)"

definition parseNat :: "nat \<Rightarrow> string \<Rightarrow> nat option" where
  "parseNat b s = (if s = [] then None else parseDigits b 0 s)"

definition isWhite :: "char \<Rightarrow> bool" where
  "isWhite c = ((of_char c :: nat) \<in> {9, 10, 11, 12, 13, 32})"

definition trimString :: "string \<Rightarrow> string" where
  "trimString s = rev (dropWhile isWhite (rev (dropWhile isWhite s)))"

definition radixOf :: "char \<Rightarrow> nat option" where
  "radixOf c =
     (if c = CHR ''x'' \<or> c = CHR ''X'' then Some 16
      else if c = CHR ''o'' \<or> c = CHR ''O'' then Some 8
      else if c = CHR ''b'' \<or> c = CHR ''B'' then Some 2
      else None)"

definition StringToBigInt :: "string \<Rightarrow> int option" where
  "StringToBigInt s =
     (case trimString s of
        [] \<Rightarrow> Some 0
      | c # cs \<Rightarrow>
          if c = CHR ''-'' then map_option (\<lambda>n. - int n) (parseNat 10 cs)
          else if c = CHR ''+'' then map_option int (parseNat 10 cs)
          else (case (c = CHR ''0'', cs) of
                  (True, r # ds) \<Rightarrow>
                    (case radixOf r of
                       Some b \<Rightarrow> map_option int (parseNat b ds)
                     | None \<Rightarrow> map_option int (parseNat 10 (c # cs)))
                | _ \<Rightarrow> map_option int (parseNat 10 (c # cs))))"

section \<open>The snapshot store (types.ts, stateManager.ts)\<close>

text \<open>
  \<open>VaultState\<close> as \<open>types.ts\<close> declares it, with its three optional fields. A
  \<open>bigint\<close> is an \<open>int\<close>; block numbers, timestamps and decimals (\<open>number\<close>) are
  integers. \<open>stateManager.ts\<close> reads and writes the first eleven fields one by one and
  never mentions \<open>depositTokenDecimals\<close> and \<open>selfAcc\<close>.
\<close>

record VaultState =
  address :: string
  name :: string
  symbol :: string
  totalSupplyCap :: int
  lastKnownTotalSupply :: int
  isFilled :: bool
  maturity :: int
  marketAddress :: string
  lastCheckedBlock :: int
  createdAt :: int
  depositTokenSymbol :: "string option"
  depositTokenDecimals :: "int option"
  selfAcc :: "string option"

text \<open>
  A JavaScript object used as a dictionary (\<open>Record<string, VaultState>\<close>) keeps its
  keys in insertion order, which \<open>Object.entries\<close> and \<open>Object.values\<close> follow; it
  is an association list with distinct keys. Assigning to an existing key replaces the
  value in place, assigning to a new key appends.
\<close>

type_synonym 'a obj = "(string \<times> 'a) list"

fun obj_set :: "string \<Rightarrow> 'a \<Rightarrow> 'a obj \<Rightarrow> 'a obj" where
  "obj_set k v [] = [(k, v)]"
| "obj_set k v ((k', v') # kvs) =
     (if k' = k then (k, v) # kvs else (k', v') # obj_set k v kvs)"

definition obj_get :: "'a obj \<Rightarrow> string \<Rightarrow> 'a option" where
  "obj_get ob k = map_of ob k"

record MonitorState =
  lastProcessedBlock :: int
  vaults :: "VaultState obj"

text \<open>
  The state file. \<open>JSON.parse\<close> and \<open>JSON.stringify\<close> belong to the runtime and are
  inverse to each other on the documents written here, so the file is held as the parsed
  document. Every field that \<open>loadState\<close> guards with \<open>||\<close> may be missing
  (\<open>None\<close>: absent, \<open>undefined\<close> or \<open>null\<close>); present fields have the declared
  JSON type. \<open>JSON.stringify\<close> leaves out a property whose value is \<open>undefined\<close>.

  \<^item> \<open>NoFile\<close>: \<open>fs.existsSync\<close> is false;
  \<^item> \<open>Unreadable\<close>: \<open>fs.readFileSync\<close> throws;
  \<^item> \<open>Malformed\<close>: \<open>JSON.parse\<close> throws on the text;
  \<^item> \<open>Doc d\<close>: the text parses to the document \<open>d\<close>.
\<close>

record vaultJson =
  j_address :: string
  j_name :: string
  j_symbol :: string
  j_totalSupplyCap :: "string option"
  j_lastKnownTotalSupply :: "string option"
  j_isFilled :: "bool option"
  j_maturity :: "string option"
  j_marketAddress :: "string option"
  j_lastCheckedBlock :: "int option"
  j_createdAt :: "int option"
  j_depositTokenSymbol :: "string option"

record stateJson =
  j_lastProcessedBlock :: "int option"
  j_vaults :: "vaultJson obj option"

datatype stateFile = NoFile | Unreadable | Malformed | Doc stateJson

text \<open>The operator \<open>x || d\<close>: \<open>d\<close> when \<open>x\<close> is missing or falsy (\<open>0\<close>, \<open>''\<close>, \<open>false\<close>).\<close>

definition numOr :: "int option \<Rightarrow> int \<Rightarrow> int" where
  "numOr x d = (case x of None \<Rightarrow> d | Some n \<Rightarrow> if n = 0 then d else n)"

definition strOr :: "string option \<Rightarrow> string \<Rightarrow> string" where
  "strOr x d = (case x of None \<Rightarrow> d | Some s \<Rightarrow> if s = [] then d else s)"

definition boolOr :: "bool option \<Rightarrow> bool \<Rightarrow> bool" where
  "boolOr x d = (case x of None \<Rightarrow> d | Some b \<Rightarrow> if b then b else d)"

definition strOrUndefined :: "string option \<Rightarrow> string option" where
  "strOrUndefined x = (case x of None \<Rightarrow> None | Some s \<Rightarrow> if s = [] then None else Some s)"

text \<open>
  One entry of the loop in \<open>loadState\<close>. \<open>None\<close>: a \<open>BigInt(...)\<close> call threw
  (\<open>TypeError\<close> on a missing cap, \<open>SyntaxError\<close> on text that is no integer).
  \<open>now\<close> is \<open>Date.now()\<close>. The object built has eleven properties; the other two
  fields of the record are \<open>undefined\<close>.
\<close>

definition loadVault :: "int \<Rightarrow> vaultJson \<Rightarrow> VaultState option" where
  "loadVault now v =
     (case j_totalSupplyCap v of
        None \<Rightarrow> None
      | Some capText \<Rightarrow>
          (case StringToBigInt capText of
             None \<Rightarrow> None
           | Some cap \<Rightarrow>
               (case StringToBigInt (strOr (j_lastKnownTotalSupply v) ''0'') of
                  None \<Rightarrow> None
                | Some supply \<Rightarrow>
                    (case StringToBigInt (strOr (j_maturity v) ''0'') of
                       None \<Rightarrow> None
                     | Some mat \<Rightarrow>
                         Some \<lparr>address = j_address v,
                               name = j_name v,
                               symbol = j_symbol v,
                               totalSupplyCap = cap,
                               lastKnownTotalSupply = supply,
                               isFilled = boolOr (j_isFilled v) False,
                               maturity = mat,
                               marketAddress = strOr (j_marketAddress v) [],
                               lastCheckedBlock = numOr (j_lastCheckedBlock v) 0,
                               createdAt = numOr (j_createdAt v) now,
                               depositTokenSymbol = strOrUndefined (j_depositTokenSymbol v),
                               depositTokenDecimals = None,
                               selfAcc = None\<rparr>))))"

fun loadVaults :: "int \<Rightarrow> vaultJson obj \<Rightarrow> VaultState obj \<Rightarrow> VaultState obj option" where
  "loadVaults now [] acc = Some acc"
| "loadVaults now ((k, v) # kvs) acc =
     (case loadVault now v of
        None \<Rightarrow> None
      | Some vault \<Rightarrow> loadVaults now kvs (obj_set k vault acc))"

definition defaultState :: "config \<Rightarrow> MonitorState" where
  "defaultState cfg = \<lparr>lastProcessedBlock = numOr (START_BLOCK cfg) 0, vaults = []\<rparr>"

definition loadState :: "config \<Rightarrow> int \<Rightarrow> stateFile \<Rightarrow> MonitorState" where
  "loadState cfg now f =
     (case f of
        Doc parsed \<Rightarrow>
          (case loadVaults now (case j_vaults parsed of None \<Rightarrow> [] | Some vs \<Rightarrow> vs) [] of
             None \<Rightarrow> defaultState cfg
           | Some vs \<Rightarrow>
               \<lparr>lastProcessedBlock = numOr (j_lastProcessedBlock parsed) 0, vaults = vs\<rparr>)
      | _ \<Rightarrow> defaultState cfg)"

definition saveVault :: "VaultState \<Rightarrow> vaultJson" where
  "saveVault vault =
     \<lparr>j_address = address vault,
      j_name = name vault,
      j_symbol = symbol vault,
      j_totalSupplyCap = Some (bigint_toString (totalSupplyCap vault)),
      j_lastKnownTotalSupply = Some (bigint_toString (lastKnownTotalSupply vault)),
      j_isFilled = Some (isFilled vault),
      j_maturity = Some (bigint_toString (maturity vault)),
      j_marketAddress = Some (marketAddress vault),
      j_lastCheckedBlock = Some (lastCheckedBlock vault),
      j_createdAt = Some (createdAt vault),
      j_depositTokenSymbol = depositTokenSymbol vault\<rparr>"

fun saveVaults :: "VaultState obj \<Rightarrow> vaultJson obj \<Rightarrow> vaultJson obj" where
  "saveVaults [] acc = acc"
| "saveVaults ((k, vault) # kvs) acc = saveVaults kvs (obj_set k (saveVault vault) acc)"

text \<open>
  \<open>saveState\<close>: \<open>writable\<close> tells whether \<open>fs.writeFileSync\<close> succeeds; when it
  throws, the error is caught and the file stays as it was.
\<close>

definition saveState :: "bool \<Rightarrow> MonitorState \<Rightarrow> stateFile \<Rightarrow> stateFile" where
  "saveState writable st f =
     (if writable
      then Doc \<lparr>j_lastProcessedBlock = Some (lastProcessedBlock st),
                j_vaults = Some (saveVaults (vaults st) [])\<rparr>
      else f)"

definition addVault :: "config \<Rightarrow> int \<Rightarrow> bool \<Rightarrow> VaultState \<Rightarrow> stateFile \<Rightarrow> stateFile" where
  "addVault cfg now writable vault f =
     (let st = loadState cfg now f
      in saveState writable
           (st\<lparr>vaults := obj_set (toLowerCase (address vault)) vault (vaults st)\<rparr>) f)"

text \<open>
  \<open>updateVault(address, updates)\<close>: \<open>updates\<close> is the spread of a partial record over
  the stored one, given here as the function that overwrites those fields.
\<close>

definition updateVault ::
  "config \<Rightarrow> int \<Rightarrow> bool \<Rightarrow> string \<Rightarrow> (VaultState \<Rightarrow> VaultState) \<Rightarrow> stateFile \<Rightarrow> stateFile" where
  "updateVault cfg now writable a updates f =
     (let st = loadState cfg now f; addr = toLowerCase a
      in case obj_get (vaults st) addr of
           None \<Rightarrow> f
         | Some old \<Rightarrow> saveState writable (st\<lparr>vaults := obj_set addr (updates old) (vaults st)\<rparr>) f)"

definition getVault :: "config \<Rightarrow> int \<Rightarrow> stateFile \<Rightarrow> string \<Rightarrow> VaultState option" where
  "getVault cfg now f a = obj_get (vaults (loadState cfg now f)) (toLowerCase a)"

definition getAllVaults :: "config \<Rightarrow> int \<Rightarrow> stateFile \<Rightarrow> VaultState list" where
  "getAllVaults cfg now f = map snd (vaults (loadState cfg now f))"

section \<open>The chain reader and the notifier, as the tracker sees them\<close>

text \<open>
  An event log entry as \<open>queryFilter\<close> returns it. The loops skip an entry that is not a
  decoded \<open>ethers.EventLog\<close> (\<open>RawCreated\<close>, \<open>RawCap\<close>). A decoded \<open>AMMCreated\<close> entry
  carries the vault address (\<open>args[0]\<close>) and its block number; a decoded
  \<open>TotalSupplyCapUpdated\<close> entry carries its argument list, of which the loop requires
  \<open>length >= 1\<close> and reads \<open>args[0]\<close>.
\<close>

datatype createdLog = RawCreated | AMMCreated string int

datatype capLog = RawCap | CapUpdated "int list" int

text \<open>
  The answers of the RPC endpoint during one pass of the tracker. \<open>None\<close> is a call that
  rejects (any thrown error: network failure, bad response). Within one pass the same
  read gives the same answer. \<open>dateNow\<close> is \<open>Date.now()\<close> and \<open>diskWritable\<close> tells
  whether \<open>fs.writeFileSync\<close> succeeds.
\<close>

record chain =
  getBlockNumber :: "int option"
  queryAMMCreated :: "int \<Rightarrow> int \<Rightarrow> createdLog list option"
  queryCapUpdated :: "string \<Rightarrow> int \<Rightarrow> int \<Rightarrow> capLog list option"
  ammName :: "string \<Rightarrow> string option"
  ammSymbol :: "string \<Rightarrow> string option"
  ammTotalSupplyCap :: "string \<Rightarrow> int option"
  ammTotalSupply :: "string \<Rightarrow> int option"
  ammMATURITY :: "string \<Rightarrow> int option"
  ammMARKET :: "string \<Rightarrow> string option"
  getLatestFTime :: "string \<Rightarrow> int option"
  descriptorTokenId :: "string \<Rightarrow> string option"
  tokenIdToAddress :: "string \<Rightarrow> string option"
  tokenSymbol :: "string \<Rightarrow> string option"
  dateNow :: int
  diskWritable :: bool

text \<open>
  The four calls of the notifier (telegramBot.ts), recorded in the order they are made.
  \<open>notifyNewVault\<close> renders the "New Vault Created" message, \<open>notifyVaultAvailable\<close>
  the "Vault Available Again" message. The notifier catches its own delivery errors.
\<close>

datatype notification =
    NewVault VaultState bool
  | CapRaised VaultState int int int
  | VaultFilled VaultState
  | VaultAvailable VaultState int

text \<open>The \<open>catch\<close> blocks of the tracker, each of which only writes to the console.\<close>

datatype caught =
    InMonitorLoop
  | InNewVaults
  | InCapUpdates string
  | InCheckStatus string

text \<open>
  The tracker's mutable state: the state file, the live-vaults cache, the block of the
  last status sweep, and what it has handed to the notifier and to the console so far.
\<close>

record monitor =
  disk :: stateFile
  cachedLiveVaultsMessage :: "string option"
  cachedLiveVaultsTimestamp :: int
  lastStatusCheckBlock :: int
  sent :: "notification list"
  caughtLog :: "caught list"

definition notify :: "notification \<Rightarrow> monitor \<Rightarrow> monitor" where
  "notify n m = m\<lparr>sent := sent m @ [n]\<rparr>"

definition logError :: "caught \<Rightarrow> monitor \<Rightarrow> monitor" where
  "logError e m = m\<lparr>caughtLog := caughtLog m @ [e]\<rparr>"

definition invalidateLiveVaultsCache :: "monitor \<Rightarrow> monitor" where
  "invalidateLiveVaultsCache m =
     m\<lparr>cachedLiveVaultsMessage := None, cachedLiveVaultsTimestamp := 0\<rparr>"

section \<open>The tracker (vaultMonitor.ts)\<close>

text \<open>
  The functions follow \<open>src/vaultMonitor.ts\<close>, which builds vault records without
  \<open>depositTokenDecimals\<close> and \<open>selfAcc\<close>. The repository holds a second copy of
  that file, which sends through the \<open>Notifier\<close> interface, fills those two fields and
  attaches deposit figures to the messages; the predicate, the loop, the three steps and
  the query have the same control flow in both.
\<close>

definition ZeroAddress :: string where
  "ZeroAddress = ''0x0000000000000000000000000000000000000000''"

text \<open>
  \<open>fetchDepositTokenSymbol\<close>: every failure inside is caught and gives \<open>null\<close>.
  \<open>descriptorTokenId\<close> is the token id of \<open>descriptor()\<close> as the hexadecimal string the
  function compares.
\<close>

definition fetchDepositTokenSymbol :: "chain \<Rightarrow> string \<Rightarrow> string option" where
  "fetchDepositTokenSymbol w market =
     (case descriptorTokenId w market of
        None \<Rightarrow> None
      | Some tokenIdHex \<Rightarrow>
          if tokenIdHex = [] \<or> tokenIdHex = ''0x00000000000000000000000000000000''
             \<or> tokenIdHex = ''0x''
          then None
          else (case tokenIdToAddress w tokenIdHex of
                  None \<Rightarrow> None
                | Some tokenAddress \<Rightarrow>
                    if tokenAddress = [] \<or> tokenAddress = ZeroAddress then None
                    else tokenSymbol w tokenAddress))"

text \<open>The \<open>Promise.all\<close> of the six reads of a new vault: it rejects when one of them does.\<close>

definition readVaultDetails ::
  "chain \<Rightarrow> string \<Rightarrow> (string \<times> string \<times> int \<times> int \<times> int \<times> string) option" where
  "readVaultDetails w a =
     (case (ammName w a, ammSymbol w a, ammTotalSupplyCap w a, ammTotalSupply w a,
            ammMATURITY w a, ammMARKET w a) of
        (Some nm, Some sy, Some cap, Some supply, Some mat, Some market) \<Rightarrow>
          Some (nm, sy, cap, supply, mat, market)
      | _ \<Rightarrow> None)"

text \<open>
  The body of the loop over creation events in \<open>monitorNewVaults\<close>. The boolean is
  false when an exception left the loop (the remaining events are not processed).
\<close>

fun newVaultsLoop :: "config \<Rightarrow> chain \<Rightarrow> createdLog list \<Rightarrow> monitor \<Rightarrow> bool \<times> monitor" where
  "newVaultsLoop cfg w [] m = (True, m)"
| "newVaultsLoop cfg w (RawCreated # events) m = newVaultsLoop cfg w events m"
| "newVaultsLoop cfg w (AMMCreated ammAddress blockNo # events) m =
     (case getVault cfg (dateNow w) (disk m) ammAddress of
        Some existing \<Rightarrow> newVaultsLoop cfg w events m
      | None \<Rightarrow>
          (case readVaultDetails w ammAddress of
             None \<Rightarrow> (False, m)
           | Some (nm, sy, cap, supply, mat, market) \<Rightarrow>
               (case getLatestFTime w market of
                  None \<Rightarrow> (False, m)
                | Some latestFTime \<Rightarrow>
                    (let isExpired = (latestFTime \<ge> mat);
                         vault = \<lparr>address = ammAddress, name = nm, symbol = sy,
                                  totalSupplyCap = cap, lastKnownTotalSupply = supply,
                                  isFilled = isVaultFilled cfg supply cap,
                                  maturity = mat, marketAddress = market,
                                  lastCheckedBlock = blockNo, createdAt = dateNow w,
                                  depositTokenSymbol =
                                    strOrUndefined (fetchDepositTokenSymbol w market),
                                  depositTokenDecimals = None, selfAcc = None\<rparr>;
                         m1 = m\<lparr>disk := addVault cfg (dateNow w) (diskWritable w) vault (disk m)\<rparr>;
                         m2 = invalidateLiveVaultsCache m1;
                         m3 = (if \<not> isExpired
                               then (if \<not> isFilled vault
                                     then notify (NewVault vault False) m2
                                     else notify (NewVault vault True) m2)
                               else m2)
                     in newVaultsLoop cfg w events m3))))"

definition monitorNewVaults :: "config \<Rightarrow> chain \<Rightarrow> int \<Rightarrow> int \<Rightarrow> monitor \<Rightarrow> monitor" where
  "monitorNewVaults cfg w fromBlock toBlock m =
     (case queryAMMCreated w fromBlock toBlock of
        None \<Rightarrow> logError InNewVaults m
      | Some events \<Rightarrow>
          (case newVaultsLoop cfg w events m of
             (True, m') \<Rightarrow> m'
           | (False, m') \<Rightarrow> logError InNewVaults m'))"

text \<open>
  The loop over the cap events of one vault in \<open>monitorCapUpdates\<close>; \<open>vault\<close> is the
  record read from the store before the loop over the vaults started.
\<close>

fun capEventsLoop :: "config \<Rightarrow> chain \<Rightarrow> VaultState \<Rightarrow> capLog list \<Rightarrow> monitor \<Rightarrow> bool \<times> monitor" where
  "capEventsLoop cfg w vault [] m = (True, m)"
| "capEventsLoop cfg w vault (RawCap # events) m = capEventsLoop cfg w vault events m"
| "capEventsLoop cfg w vault (CapUpdated [] blockNo # events) m =
     capEventsLoop cfg w vault events m"
| "capEventsLoop cfg w vault (CapUpdated (newCap # args) blockNo # events) m =
     (let oldCap = totalSupplyCap vault in
      case ammTotalSupply w (address vault) of
        None \<Rightarrow> (False, m)
      | Some currentSupply \<Rightarrow>
          (let wasFilled = isFilled vault;
               isNowFilled = isVaultFilled cfg currentSupply newCap;
               m1 = m\<lparr>disk := updateVault cfg (dateNow w) (diskWritable w) (address vault)
                                 (\<lambda>v. v\<lparr>totalSupplyCap := newCap,
                                         lastKnownTotalSupply := currentSupply,
                                         isFilled := isNowFilled,
                                         lastCheckedBlock := blockNo\<rparr>)
                                 (disk m)\<rparr>;
               m2 = invalidateLiveVaultsCache m1;
               m3 = notify (CapRaised (vault\<lparr>totalSupplyCap := newCap,
                                             lastKnownTotalSupply := currentSupply\<rparr>)
                              oldCap newCap currentSupply) m2;
               m4 = (if wasFilled \<and> \<not> isNowFilled
                     then notify (NewVault (vault\<lparr>totalSupplyCap := newCap,
                                                  lastKnownTotalSupply := currentSupply,
                                                  isFilled := False\<rparr>) False) m3
                     else m3)
           in capEventsLoop cfg w vault events m4))"

text \<open>
  The loop over the stored vaults in \<open>monitorCapUpdates\<close>. For an expired vault the
  source executes \<open>return\<close>, which ends the function.
\<close>

fun capUpdatesLoop :: "config \<Rightarrow> chain \<Rightarrow> int \<Rightarrow> int \<Rightarrow> VaultState list \<Rightarrow> monitor \<Rightarrow> monitor" where
  "capUpdatesLoop cfg w fromBlock toBlock [] m = m"
| "capUpdatesLoop cfg w fromBlock toBlock (vault # rest) m =
     (case queryCapUpdated w (address vault) fromBlock toBlock of
        None \<Rightarrow>
          capUpdatesLoop cfg w fromBlock toBlock rest (logError (InCapUpdates (address vault)) m)
      | Some events \<Rightarrow>
          (case getLatestFTime w (marketAddress vault) of
             None \<Rightarrow>
               capUpdatesLoop cfg w fromBlock toBlock rest
                 (logError (InCapUpdates (address vault)) m)
           | Some latestFTime \<Rightarrow>
               if latestFTime \<ge> maturity vault then m
               else (case capEventsLoop cfg w vault events m of
                       (True, m') \<Rightarrow> capUpdatesLoop cfg w fromBlock toBlock rest m'
                     | (False, m') \<Rightarrow>
                         capUpdatesLoop cfg w fromBlock toBlock rest
                           (logError (InCapUpdates (address vault)) m'))))"

definition monitorCapUpdates :: "config \<Rightarrow> chain \<Rightarrow> int \<Rightarrow> int \<Rightarrow> monitor \<Rightarrow> monitor" where
  "monitorCapUpdates cfg w fromBlock toBlock m =
     capUpdatesLoop cfg w fromBlock toBlock (getAllVaults cfg (dateNow w) (disk m)) m"

text \<open>The \<open>Promise.all\<close> of \<open>totalSupply()\<close> and \<open>totalSupplyCap()\<close>.\<close>

definition readSupplyAndCap :: "chain \<Rightarrow> string \<Rightarrow> (int \<times> int) option" where
  "readSupplyAndCap w a =
     (case (ammTotalSupply w a, ammTotalSupplyCap w a) of
        (Some supply, Some cap) \<Rightarrow> Some (supply, cap)
      | _ \<Rightarrow> None)"

text \<open>
  \<open>checkVaultStatus\<close>, first part: the token symbol is fetched and patched into the store
  when the record has none (\<open>undefined\<close> or empty); the local copy of the record gets it too.
\<close>

definition backfillTokenSymbol :: "config \<Rightarrow> chain \<Rightarrow> VaultState \<Rightarrow> monitor \<Rightarrow> VaultState \<times> monitor" where
  "backfillTokenSymbol cfg w vault m =
     (if strOrUndefined (depositTokenSymbol vault) = None
      then (case strOrUndefined (fetchDepositTokenSymbol w (marketAddress vault)) of
              None \<Rightarrow> (vault, m)
            | Some tokSym \<Rightarrow>
                (vault\<lparr>depositTokenSymbol := Some tokSym\<rparr>,
                 m\<lparr>disk := updateVault cfg (dateNow w) (diskWritable w) (address vault)
                              (\<lambda>v. v\<lparr>depositTokenSymbol := Some tokSym\<rparr>) (disk m)\<rparr>))
      else (vault, m))"

definition checkVaultStatus :: "config \<Rightarrow> chain \<Rightarrow> VaultState \<Rightarrow> monitor \<Rightarrow> monitor" where
  "checkVaultStatus cfg w vault0 m0 =
     (case getLatestFTime w (marketAddress vault0) of
        None \<Rightarrow> logError (InCheckStatus (address vault0)) m0
      | Some latestFTime \<Rightarrow>
          if latestFTime \<ge> maturity vault0 then m0
          else
            (case backfillTokenSymbol cfg w vault0 m0 of
               (vault, m) \<Rightarrow>
                 (case readSupplyAndCap w (address vault) of
                    None \<Rightarrow> logError (InCheckStatus (address vault)) m
                  | Some (supply, cap) \<Rightarrow>
                      (let wasFilled = isFilled vault;
                           isNowFilled = isVaultFilled cfg supply cap;
                           m1 = (if cap \<noteq> totalSupplyCap vault
                                 then notify (CapRaised (vault\<lparr>totalSupplyCap := cap,
                                                               lastKnownTotalSupply := supply\<rparr>)
                                                (totalSupplyCap vault) cap supply)
                                        (invalidateLiveVaultsCache m)
                                 else m);
                           m2 = (if wasFilled \<noteq> isNowFilled
                                 then (let mi = invalidateLiveVaultsCache m1
                                       in if isNowFilled
                                          then notify (VaultFilled (vault\<lparr>totalSupplyCap := cap,
                                                                          lastKnownTotalSupply := supply,
                                                                          isFilled := True\<rparr>)) mi
                                          else if wasFilled
                                          then notify (VaultAvailable (vault\<lparr>totalSupplyCap := cap,
                                                                             lastKnownTotalSupply := supply,
                                                                             isFilled := False\<rparr>) supply) mi
                                          else mi)
                                 else m1)
                       in m2\<lparr>disk := updateVault cfg (dateNow w) (diskWritable w) (address vault)
                                        (\<lambda>v. v\<lparr>totalSupplyCap := cap,
                                                lastKnownTotalSupply := supply,
                                                isFilled := isNowFilled\<rparr>)
                                        (disk m2)\<rparr>))))"

text \<open>
  \<open>checkAllVaultStatuses\<close> takes the stored vaults in slices of \<open>BATCH_SIZE = 5\<close> and
  awaits each slice with \<open>Promise.all\<close>. Every check catches its own errors, and the checks
  of one slice work on different records; they are run here one after the other.
\<close>

function batchesOf :: "nat \<Rightarrow> 'a list \<Rightarrow> 'a list list" where
  "batchesOf n xs = (if n = 0 \<or> xs = [] then [] else take n xs # batchesOf n (drop n xs))"
  by pat_completeness auto
termination
  by (relation "measure (\<lambda>(n, xs). length xs)") auto

declare batchesOf.simps [simp del]

definition checkAllVaultStatuses :: "config \<Rightarrow> chain \<Rightarrow> monitor \<Rightarrow> monitor" where
  "checkAllVaultStatuses cfg w m =
     fold (\<lambda>batch. fold (checkVaultStatus cfg w) batch)
       (batchesOf 5 (getAllVaults cfg (dateNow w) (disk m))) m"

definition STATUS_CHECK_INTERVAL_BLOCKS :: int where
  "STATUS_CHECK_INTERVAL_BLOCKS = 120"

text \<open>
  One pass of the \<open>while\<close> loop of \<open>monitor\<close> (without the sleep). Only
  \<open>getBlockNumber\<close> can throw into the outer \<open>catch\<close>: the three steps catch their own
  errors, and \<open>loadState\<close> and \<open>saveState\<close> never throw.
\<close>

definition monitorIteration :: "config \<Rightarrow> chain \<Rightarrow> monitor \<Rightarrow> monitor" where
  "monitorIteration cfg w m =
     (case getBlockNumber w of
        None \<Rightarrow> logError InMonitorLoop m
      | Some currentBlock \<Rightarrow>
          (let st = loadState cfg (dateNow w) (disk m);
               fromBlock = lastProcessedBlock st + 1
           in if fromBlock \<le> currentBlock
              then (let m1 = monitorNewVaults cfg w fromBlock currentBlock m;
                        m2 = monitorCapUpdates cfg w fromBlock currentBlock m1;
                        m3 = (if currentBlock - lastStatusCheckBlock m2 \<ge> STATUS_CHECK_INTERVAL_BLOCKS
                              then (checkAllVaultStatuses cfg w m2)\<lparr>lastStatusCheckBlock := currentBlock\<rparr>
                              else m2);
                        newState = loadState cfg (dateNow w) (disk m3)
                    in m3\<lparr>disk := saveState (diskWritable w)
                                     (newState\<lparr>lastProcessedBlock := currentBlock\<rparr>) (disk m3)\<rparr>)
              else m))"

text \<open>A run of the loop: one \<open>chain\<close> per pass, in order.\<close>

definition runIterations :: "config \<Rightarrow> chain list \<Rightarrow> monitor \<Rightarrow> monitor" where
  "runIterations cfg ws m = fold (monitorIteration cfg) ws m"

subsection \<open>The live-vault query\<close>

record liveVault = VaultState +
  depositCurrency :: string
  utilization :: rat

text \<open>
  The body of the loop in \<open>getLiveVaults\<close>; \<open>None\<close> is a vault that is skipped (expired,
  filled, or a read that threw into the \<open>catch\<close> of that loop body). The source divides
  the basis points, converted to a \<open>number\<close>, by 100; \<open>utilization\<close> holds the exact
  quotient, of which the \<open>number\<close> is the nearest binary64 value.
  \<open>VaultState.extend v (liveVault.fields c u)\<close> is the record \<open>v\<close> with the two
  further fields \<open>depositCurrency = c\<close> and \<open>utilization = u\<close>.
\<close>

definition liveEntry :: "config \<Rightarrow> chain \<Rightarrow> VaultState \<Rightarrow> liveVault option" where
  "liveEntry cfg w vault =
     (case getLatestFTime w (marketAddress vault) of
        None \<Rightarrow> None
      | Some latestFTime \<Rightarrow>
          if latestFTime \<ge> maturity vault then None
          else (case readSupplyAndCap w (address vault) of
                  None \<Rightarrow> None
                | Some (currentSupply, cap) \<Rightarrow>
                    if isVaultFilled cfg currentSupply cap then None
                    else
                      (let currency =
                             (case strOrUndefined (depositTokenSymbol vault) of
                                Some tokSym \<Rightarrow> tokSym
                              | None \<Rightarrow>
                                  (case strOrUndefined (fetchDepositTokenSymbol w (marketAddress vault)) of
                                     Some tokenSym \<Rightarrow> tokenSym
                                   | None \<Rightarrow> symbol vault));
                           util = (if cap > 0
                                   then of_int (bigint_div (currentSupply * 10000) cap) / 100
                                   else 0)
                       in Some (VaultState.extend
                                  (vault\<lparr>lastKnownTotalSupply := currentSupply,
                                          totalSupplyCap := cap,
                                          depositTokenSymbol := Some currency\<rparr>)
                                  (liveVault.fields currency util)))))"

text \<open>
  \<open>Array.prototype.sort\<close> with the comparator \<open>a.utilization - b.utilization\<close> is a
  stable sort by that key, as \<open>sort_key\<close> is.
\<close>

definition getLiveVaults :: "config \<Rightarrow> chain \<Rightarrow> monitor \<Rightarrow> liveVault list" where
  "getLiveVaults cfg w m =
     sort_key utilization
       (List.map_filter (liveEntry cfg w) (getAllVaults cfg (dateNow w) (disk m)))"




section \<open>Auxiliary notions for the statements\<close>

definition isDecimalDigit :: "char \<Rightarrow> bool" where
  "isDecimalDigit c = (48 \<le> (of_char c :: nat) \<and> (of_char c :: nat) \<le> 57)"

text \<open>
  What \<open>loadState\<close> makes of a vault record that \<open>saveState\<close> wrote: the two fields
  whose \<open>||\<close> guard can fire on a value that was really written, and the two fields
  that are not written.
\<close>

definition reloaded :: "int \<Rightarrow> VaultState \<Rightarrow> VaultState" where
  "reloaded now v =
     v\<lparr>createdAt := (if createdAt v = 0 then now else createdAt v),
       depositTokenSymbol := strOrUndefined (depositTokenSymbol v),
       depositTokenDecimals := None,
       selfAcc := None\<rparr>"

text \<open>Concrete data for the closed statements.\<close>

definition cfg98 :: config where
  "cfg98 = \<lparr>START_BLOCK = None, FILLED_THRESHOLD_PERCENT = 98\<rparr>"


definition vaultA :: VaultState where
  "vaultA =
     \<lparr>address = ''0xAb01'', name = ''Boros AMM - A'', symbol = ''BA'',
      totalSupplyCap = 1000, lastKnownTotalSupply = 500, isFilled = False,
      maturity = 2000, marketAddress = ''0xM1'', lastCheckedBlock = 0,
      createdAt = 1700000000000, depositTokenSymbol = None,
      depositTokenDecimals = None, selfAcc = None\<rparr>"

text \<open>
  The \<open>lastProcessedBlock\<close> that the store reports for a state file. It does not depend
  on the clock, which \<open>loadState\<close> only uses for a missing \<open>createdAt\<close>.
\<close>

definition persistedBlock :: "config \<Rightarrow> stateFile \<Rightarrow> int" where
  "persistedBlock cfg f = lastProcessedBlock (loadState cfg 0 f)"

text \<open>
  A chain on which the factory logged the creation of the vault \<open>0xAb01\<close> in block 103,
  every read of that vault succeeds, and its market reports a time before maturity.
\<close>

definition chainA :: chain where
  "chainA =
     \<lparr>getBlockNumber = Some 110,
      queryAMMCreated = (\<lambda>fromBlock toBlock.
         if fromBlock \<le> 103 \<and> 103 \<le> toBlock then Some [AMMCreated ''0xAb01'' 103] else Some []),
      queryCapUpdated = (\<lambda>a fromBlock toBlock. Some []),
      ammName = (\<lambda>a. Some ''Boros AMM - A''),
      ammSymbol = (\<lambda>a. Some ''BA''),
      ammTotalSupplyCap = (\<lambda>a. Some 1000),
      ammTotalSupply = (\<lambda>a. Some 500),
      ammMATURITY = (\<lambda>a. Some 2000),
      ammMARKET = (\<lambda>a. Some ''0xM1''),
      getLatestFTime = (\<lambda>a. Some 1500),
      descriptorTokenId = (\<lambda>a. None),
      tokenIdToAddress = (\<lambda>a. None),
      tokenSymbol = (\<lambda>a. None),
      dateNow = 1700000000000,
      diskWritable = True\<rparr>"



text \<open>A tracker whose store holds the given state, with an empty cache and nothing sent.\<close>

definition monitorWith :: "MonitorState \<Rightarrow> int \<Rightarrow> monitor" where
  "monitorWith st lastCheck =
     \<lparr>disk = saveState True st NoFile, cachedLiveVaultsMessage = None,
      cachedLiveVaultsTimestamp = 0, lastStatusCheckBlock = lastCheck,
      sent = [], caughtLog = []\<rparr>"


text \<open>
  A creation event is known to a store when it is a decoded event whose address, in lower
  case, is a key of the store (raw log entries are skipped by the loop in any case).
\<close>

definition knownEvent :: "VaultState obj \<Rightarrow> createdLog \<Rightarrow> bool" where
  "knownEvent ob e =
     (case e of RawCreated \<Rightarrow> True | AMMCreated a blockNo \<Rightarrow> toLowerCase a \<in> set (map fst ob))"

text \<open>A store that holds \<open>vaultA\<close>, and a chain whose creation-event query returns the
  event of that vault twice, once with the address in upper case.\<close>

definition monitorB :: monitor where
  "monitorB = monitorWith \<lparr>lastProcessedBlock = 110, vaults = [(''0xab01'', vaultA)]\<rparr> 100"

definition chainReplay :: chain where
  "chainReplay =
     chainA\<lparr>getBlockNumber := Some 115,
            queryAMMCreated := (\<lambda>fromBlock toBlock.
               Some [AMMCreated ''0xAB01'' 103, RawCreated, AMMCreated ''0xAb01'' 103])\<rparr>"

text \<open>A state file that parses as JSON but holds a cap that is no integer.\<close>

definition docBadCap :: stateFile where
  "docBadCap =
     Doc \<lparr>j_lastProcessedBlock = Some 500,
          j_vaults = Some [(''0xab01'', (saveVault vaultA)\<lparr>j_totalSupplyCap := Some ''12x''\<rparr>)]\<rparr>"

definition cfgStart :: config where
  "cfgStart = \<lparr>START_BLOCK = Some 250, FILLED_THRESHOLD_PERCENT = 98\<rparr>"

text \<open>
  A filled vault (990 of 1000) and an expired one (maturity 1000), and a chain on which
  every vault logged one cap change to 2000 in block 112 while the supply is 990 and
  every market reports the time 1500.
\<close>

definition vaultF :: VaultState where
  "vaultF = vaultA\<lparr>lastKnownTotalSupply := 990, isFilled := True\<rparr>"

definition vaultE :: VaultState where
  "vaultE = vaultA\<lparr>address := ''0xEe02'', name := ''Boros AMM - E'', maturity := 1000\<rparr>"

definition chainRaise :: chain where
  "chainRaise =
     chainA\<lparr>getBlockNumber := Some 115,
            queryAMMCreated := (\<lambda>fromBlock toBlock. Some []),
            queryCapUpdated := (\<lambda>a fromBlock toBlock. Some [CapUpdated [2000] 112]),
            ammTotalSupplyCap := (\<lambda>a. Some 2000),
            ammTotalSupply := (\<lambda>a. Some 990)\<rparr>"

definition monitorF :: monitor where
  "monitorF = monitorWith \<lparr>lastProcessedBlock = 110, vaults = [(''0xab01'', vaultF)]\<rparr> 100"

definition monitorEF :: monitor where
  "monitorEF =
     monitorWith \<lparr>lastProcessedBlock = 110,
                  vaults = [(''0xee02'', vaultE), (''0xab01'', vaultF)]\<rparr> 100"

definition monitorFE :: monitor where
  "monitorFE =
     monitorWith \<lparr>lastProcessedBlock = 110,
                  vaults = [(''0xab01'', vaultF), (''0xee02'', vaultE)]\<rparr> 100"

definition isVaultAvailable :: "notification \<Rightarrow> bool" where
  "isVaultAvailable n = (case n of VaultAvailable v supply \<Rightarrow> True | _ \<Rightarrow> False)"

definition isCapRaised :: "notification \<Rightarrow> bool" where
  "isCapRaised n = (case n of CapRaised v oldCap newCap supply \<Rightarrow> True | _ \<Rightarrow> False)"



text \<open>
  The condition under which the live-vault query lists a stored vault: the market's time,
  the supply and the cap are all read, the time is before maturity, and the supply and cap
  that were read do not make the vault filled.
\<close>

definition isLive :: "config \<Rightarrow> chain \<Rightarrow> VaultState \<Rightarrow> bool" where
  "isLive cfg w v =
     (case (getLatestFTime w (marketAddress v), ammTotalSupply w (address v),
            ammTotalSupplyCap w (address v)) of
        (Some latestFTime, Some supply, Some cap) \<Rightarrow>
          \<not> (latestFTime \<ge> maturity v) \<and> \<not> isVaultFilled cfg supply cap
      | _ \<Rightarrow> False)"

text \<open>A chain on which the vault has supply 1 and cap 3.\<close>

definition chainThird :: chain where
  "chainThird = chainA\<lparr>ammTotalSupply := (\<lambda>a. Some 1), ammTotalSupplyCap := (\<lambda>a. Some 3)\<rparr>"

text \<open>
  A store with two vaults, and a chain on which the first is at 50 percent and the second
  at 10 percent of its cap.
\<close>

definition vaultG :: VaultState where
  "vaultG = vaultA\<lparr>address := ''0xCc03'', name := ''Boros AMM - G''\<rparr>"

definition monitorAG :: monitor where
  "monitorAG =
     monitorWith \<lparr>lastProcessedBlock = 110,
                  vaults = [(''0xab01'', vaultA), (''0xcc03'', vaultG)]\<rparr> 100"

definition chainTwo :: chain where
  "chainTwo = chainA\<lparr>ammTotalSupply := (\<lambda>a. if a = ''0xCc03'' then Some 100 else Some 500)\<rparr>"

section \<open>Properties\<close>



subsection \<open>The binary64 product\<close>

lemma pow2_powi: "pow2 k = 2 powi k"
  by (simp add: pow2_def power_int_def field_simps)

lemma floorLog2_lower: "0 < a \<Longrightarrow> pow2 (floorLog2 a) \<le> a"
proof -
  assume a: "0 < a"
  obtain p q where pq: "quotient_of a = (p, q)" by (cases "quotient_of a")
  then have q: "0 < q" and e: "a = of_int p / of_int q"
    using quotient_of_denom_pos quotient_of_div by blast+
  with a have p: "0 < p" by (simp add: zero_less_divide_iff)
  let ?d = "bitlen p - bitlen q"
  have lp: "(2::rat) ^ nat (bitlen p - 1) \<le> of_int p"
    using bitlen_bounds [OF p] by (metis of_int_le_iff of_int_numeral of_int_power)
  have uq: "of_int q < (2::rat) ^ nat (bitlen q)"
    using bitlen_bounds [OF q] by (metis of_int_less_iff of_int_numeral of_int_power)
  have bp: "1 \<le> bitlen p" "1 \<le> bitlen q"
    using p q by (auto simp: bitlen_alt_def)
  have "pow2 (?d - 1) = 2 powi (bitlen p - 1) / 2 powi bitlen q"
    by (simp add: pow2_powi power_int_diff)
  also have "\<dots> = 2 ^ nat (bitlen p - 1) / 2 ^ nat (bitlen q)"
    using bp by (simp add: power_int_def)
  also have "\<dots> \<le> of_int p / of_int q"
    using lp uq q p by (intro frac_le) auto
  finally have low: "pow2 (?d - 1) \<le> a" using e by simp
  show ?thesis
    using low by (simp add: floorLog2_def pq Let_def)
qed

lemma pow2_less_imp: "pow2 i < pow2 j \<Longrightarrow> i < j"
proof (rule ccontr)
  assume l: "pow2 i < pow2 j" and "\<not> i < j"
  then have "j \<le> i" by simp
  then have "(2::rat) powi j \<le> 2 powi i" by (rule power_int_increasing) simp
  with l show False by (simp add: pow2_powi)
qed

lemma roundHalfEven_of_int: "roundHalfEven (of_int z) = z"
  by (simp add: roundHalfEven_def)

text \<open>An integer below \<open>2 ^ 53\<close> in size is a binary64 value: the product is not rounded.\<close>

lemma round64_of_int:
  assumes "\<bar>k\<bar> < 2 ^ 53"
  shows "round64 (of_int k) = of_int k"
proof (cases "k = 0")
  case True
  then show ?thesis by (simp add: round64_def)
next
  case False
  let ?a = "\<bar>of_int k :: rat\<bar>"
  let ?e = "max (floorLog2 ?a) (- 1022)"
  have pos: "0 < ?a" using False by simp
  have "pow2 (floorLog2 ?a) \<le> ?a" using pos by (rule floorLog2_lower)
  also have "?a < 2 ^ 53"
    using assms by (metis of_int_abs of_int_less_iff of_int_numeral of_int_power)
  finally have "pow2 (floorLog2 ?a) < pow2 53" by (simp add: pow2_def)
  then have "floorLog2 ?a < 53" by (rule pow2_less_imp)
  then have le: "?e \<le> 52" by simp
  define n where "n = nat (52 - ?e)"
  have q: "pow2 (?e - 52) = 1 / 2 ^ n"
    using le by (auto simp: pow2_def n_def)
  have "(of_int k :: rat) / (1 / 2 ^ n) = of_int (k * 2 ^ n)" by simp
  then have r: "roundHalfEven (of_int k / pow2 (?e - 52)) = k * 2 ^ n"
    unfolding q by (simp only: roundHalfEven_of_int)
  have "round64 (of_int k) = of_int (roundHalfEven (of_int k / pow2 (?e - 52))) * pow2 (?e - 52)"
    using False by (simp add: round64_def Let_def)
  also have "\<dots> = of_int (k * 2 ^ n) * (1 / 2 ^ n)" by (subst r) (simp only: q)
  also have "\<dots> = of_int k" by simp
  finally show ?thesis .
qed

lemma threshold_cfg98: "thresholdBasisPoints cfg98 = 9800"
proof -
  have "round64 (of_int 9800) = of_int 9800" by (rule round64_of_int) simp
  then show ?thesis by (simp add: thresholdBasisPoints_def cfg98_def)
qed



subsection \<open>The filled predicate\<close>




subsection \<open>Decimal strings of big integers\<close>

lemma charDigit_digitChar: "d < 10 \<Longrightarrow> charDigit (digitChar d) = Some d"
  by (simp add: charDigit_def digitChar_def Let_def)

lemma parseDigits_append:
  "parseDigits b acc (xs @ ys) =
     (case parseDigits b acc xs of None \<Rightarrow> None | Some a \<Rightarrow> parseDigits b a ys)"
  by (induction xs arbitrary: acc) (auto split: option.splits)

lemma parseDigits_digitsOf: "parseDigits 10 0 (digitsOf n) = Some n"
proof (induction n rule: digitsOf.induct)
  case (1 n)
  show ?case
  proof (cases "n < 10")
    case True
    then show ?thesis by (subst digitsOf.simps) (simp add: charDigit_digitChar)
  next
    case False
    with 1 have "parseDigits 10 0 (digitsOf (n div 10)) = Some (n div 10)" by simp
    with False show ?thesis
      by (subst digitsOf.simps) (simp add: parseDigits_append charDigit_digitChar)
  qed
qed

lemma digitsOf_nonempty: "digitsOf n \<noteq> []"
  by (subst digitsOf.simps) simp

lemma digitChar_decimal: "d < 10 \<Longrightarrow> isDecimalDigit (digitChar d)"
  by (simp add: isDecimalDigit_def digitChar_def)

lemma digitsOf_decimal: "c \<in> set (digitsOf n) \<Longrightarrow> isDecimalDigit c"
proof (induction n rule: digitsOf.induct)
  case (1 n)
  show ?case
  proof (cases "n < 10")
    case True
    with 1(2) show ?thesis by (subst (asm) digitsOf.simps) (simp add: digitChar_decimal)
  next
    case False
    with 1 show ?thesis by (subst (asm) (2) digitsOf.simps) (auto simp: digitChar_decimal)
  qed
qed


lemma decimal_not_white: "isDecimalDigit c \<Longrightarrow> \<not> isWhite c"
  by (auto simp: isDecimalDigit_def isWhite_def)

lemma decimal_differs:
  assumes "isDecimalDigit c" and "(of_char d :: nat) < 48 \<or> 57 < (of_char d :: nat)"
  shows "c \<noteq> d"
proof
  assume "c = d"
  then have "(of_char c :: nat) = of_char d" by simp
  with assms show False by (simp add: isDecimalDigit_def)
qed

lemma decimal_no_sign: "isDecimalDigit c \<Longrightarrow> c \<noteq> CHR ''-'' \<and> c \<noteq> CHR ''+''"
  by (simp add: decimal_differs)

lemma decimal_no_radix: "isDecimalDigit c \<Longrightarrow> radixOf c = None"
  unfolding radixOf_def by (simp add: decimal_differs)

lemma trimString_id:
  assumes "\<And>c. c \<in> set s \<Longrightarrow> \<not> isWhite c"
  shows "trimString s = s"
proof -
  have a: "dropWhile isWhite s = s"
    using assms by (cases s) auto
  have b: "dropWhile isWhite (rev s) = rev s"
    using assms by (cases "rev s") (auto simp: rev_eq_Cons_iff)
  show ?thesis by (simp add: trimString_def a b)
qed

lemma StringToBigInt_digitsOf: "StringToBigInt (digitsOf m) = Some (int m)"
proof -
  have dec: "\<And>c. c \<in> set (digitsOf m) \<Longrightarrow> isDecimalDigit c"
    by (rule digitsOf_decimal)
  have trim: "trimString (digitsOf m) = digitsOf m"
    by (rule trimString_id) (simp add: dec decimal_not_white)
  obtain c cs where s: "digitsOf m = c # cs"
    using digitsOf_nonempty [of m] by (cases "digitsOf m") auto
  have c: "isDecimalDigit c" using dec s by simp
  have p: "parseNat 10 (c # cs) = Some m"
    using parseDigits_digitsOf [of m] s by (simp add: parseNat_def)
  have r: "\<And>r ds. cs = r # ds \<Longrightarrow> radixOf r = None"
    using dec s by (simp add: decimal_no_radix)
  have trim': "trimString (c # cs) = c # cs"
    using trim s by simp
  have "StringToBigInt (c # cs) = Some (int m)"
    using decimal_no_sign [OF c] p r
    by (auto simp: StringToBigInt_def trim' split: list.splits bool.splits)
  then show ?thesis by (simp add: s)
qed

lemma StringToBigInt_minus: "StringToBigInt (CHR ''-'' # digitsOf m) = Some (- int m)"
proof -
  have "\<And>c. c \<in> set (CHR ''-'' # digitsOf m) \<Longrightarrow> \<not> isWhite c"
    using digitsOf_decimal decimal_not_white by (auto simp: isWhite_def)
  then have trim: "trimString (CHR ''-'' # digitsOf m) = CHR ''-'' # digitsOf m"
    by (rule trimString_id)
  have "parseNat 10 (digitsOf m) = Some m"
    using parseDigits_digitsOf [of m] digitsOf_nonempty [of m] by (simp add: parseNat_def)
  then show ?thesis by (simp add: StringToBigInt_def trim)
qed

lemma BigInt_toString: "StringToBigInt (bigint_toString n) = Some n"
  by (simp add: bigint_toString_def StringToBigInt_digitsOf StringToBigInt_minus)

lemma bigint_toString_nonempty: "bigint_toString n \<noteq> []"
  by (simp add: bigint_toString_def digitsOf_nonempty)

subsection \<open>Saving and loading\<close>

lemma loadVault_saveVault: "loadVault now (saveVault v) = Some (reloaded now v)"
  by (simp add: loadVault_def saveVault_def reloaded_def strOr_def numOr_def boolOr_def
      BigInt_toString bigint_toString_nonempty)

lemma obj_set_fresh: "k \<notin> fst ` set ob \<Longrightarrow> obj_set k v ob = ob @ [(k, v)]"
  by (induction ob) auto

lemma saveVaults_distinct:
  "distinct (map fst acc @ map fst kvs) \<Longrightarrow>
   saveVaults kvs acc = acc @ map (\<lambda>(k, v). (k, saveVault v)) kvs"
proof (induction kvs arbitrary: acc)
  case Nil
  then show ?case by simp
next
  case (Cons kv kvs)
  obtain k v where kv: "kv = (k, v)" by (cases kv)
  from Cons.prems kv have fresh: "k \<notin> fst ` set acc" by auto
  from Cons.prems kv have "distinct (map fst (acc @ [(k, saveVault v)]) @ map fst kvs)" by auto
  from Cons.IH [OF this] show ?case
    by (simp add: kv obj_set_fresh [OF fresh])
qed

lemma loadVaults_distinct:
  "distinct (map fst acc @ map fst kvs) \<Longrightarrow>
   loadVaults now (map (\<lambda>(k, v). (k, saveVault v)) kvs) acc
     = Some (acc @ map (\<lambda>(k, v). (k, reloaded now v)) kvs)"
proof (induction kvs arbitrary: acc)
  case Nil
  then show ?case by simp
next
  case (Cons kv kvs)
  obtain k v where kv: "kv = (k, v)" by (cases kv)
  from Cons.prems kv have fresh: "k \<notin> fst ` set acc" by auto
  from Cons.prems kv have "distinct (map fst (acc @ [(k, reloaded now v)]) @ map fst kvs)" by auto
  from Cons.IH [OF this] show ?case
    by (simp add: kv loadVault_saveVault obj_set_fresh [OF fresh])
qed

lemma loadState_saveState:
  assumes "distinct (map fst (vaults s))"
  shows "loadState cfg now (saveState True s f)
         = s\<lparr>vaults := map (\<lambda>(k, v). (k, reloaded now v)) (vaults s)\<rparr>"
proof -
  have sv: "saveVaults (vaults s) [] = map (\<lambda>(k, v). (k, saveVault v)) (vaults s)"
    using saveVaults_distinct [of "[]" "vaults s"] assms by simp
  have lv: "loadVaults now (map (\<lambda>(k, v). (k, saveVault v)) (vaults s)) []
            = Some (map (\<lambda>(k, v). (k, reloaded now v)) (vaults s))"
    using loadVaults_distinct [of "[]" "vaults s" now] assms by simp
  show ?thesis
    by (simp add: loadState_def saveState_def sv lv numOr_def)
qed


lemma reloaded_written_fields:
  assumes "createdAt v \<noteq> 0" and "depositTokenDecimals v = None" and "selfAcc v = None"
  shows "reloaded now v = v\<lparr>depositTokenSymbol := strOrUndefined (depositTokenSymbol v)\<rparr>"
  using assms by (cases v) (simp add: reloaded_def)

lemma reloaded_same:
  assumes "createdAt v \<noteq> 0" and "depositTokenDecimals v = None" and "selfAcc v = None"
    and "depositTokenSymbol v \<noteq> Some []"
  shows "reloaded now v = v"
  using assms by (cases v) (auto simp: reloaded_def strOrUndefined_def split: option.splits)

text \<open>
  Claim C2, as the code has it. For every state whose keys are distinct and in which
  every vault has \<open>createdAt\<close> other than 0 and carries neither \<open>depositTokenDecimals\<close>
  nor \<open>selfAcc\<close>, loading what a successful \<open>saveState\<close> wrote gives the state back with
  \<open>lastProcessedBlock\<close> and every vault field reproduced exactly (cap, supply and
  maturity through their decimal strings, for every integer), except that an empty
  \<open>depositTokenSymbol\<close> comes back absent; when no vault has an empty
  \<open>depositTokenSymbol\<close> the result is the state itself. A \<open>lastProcessedBlock\<close> or
  \<open>lastCheckedBlock\<close> of 0 and an absent \<open>depositTokenSymbol\<close> are covered.
\<close>

theorem loadState_saveState_roundtrip:
  "distinct (map fst (vaults s)) \<Longrightarrow>
   (\<forall>v \<in> snd ` set (vaults s).
      createdAt v \<noteq> 0 \<and> depositTokenDecimals v = None \<and> selfAcc v = None) \<Longrightarrow>
     loadState cfg now (saveState True s f)
       = s\<lparr>vaults := map (\<lambda>(k, v). (k, v\<lparr>depositTokenSymbol := strOrUndefined (depositTokenSymbol v)\<rparr>))
                         (vaults s)\<rparr>
     \<and> ((\<forall>v \<in> snd ` set (vaults s). depositTokenSymbol v \<noteq> Some []) \<longrightarrow>
          loadState cfg now (saveState True s f) = s)"
proof -
  assume d: "distinct (map fst (vaults s))"
    and c: "\<forall>v \<in> snd ` set (vaults s).
              createdAt v \<noteq> 0 \<and> depositTokenDecimals v = None \<and> selfAcc v = None"
  have r: "loadState cfg now (saveState True s f)
           = s\<lparr>vaults := map (\<lambda>(k, v). (k, reloaded now v)) (vaults s)\<rparr>"
    using d by (rule loadState_saveState)
  have m1: "map (\<lambda>(k, v). (k, reloaded now v)) (vaults s)
            = map (\<lambda>(k, v). (k, v\<lparr>depositTokenSymbol := strOrUndefined (depositTokenSymbol v)\<rparr>))
                (vaults s)"
  proof (intro map_cong refl)
    fix kv assume kv: "kv \<in> set (vaults s)"
    obtain k v where e: "kv = (k, v)" by (cases kv)
    from kv e have "v \<in> snd ` set (vaults s)" by force
    with c have "createdAt v \<noteq> 0" "depositTokenDecimals v = None" "selfAcc v = None" by auto
    then have "reloaded now v = v\<lparr>depositTokenSymbol := strOrUndefined (depositTokenSymbol v)\<rparr>"
      by (rule reloaded_written_fields)
    with e show "(case kv of (k, v) \<Rightarrow> (k, reloaded now v))
          = (case kv of (k, v) \<Rightarrow> (k, v\<lparr>depositTokenSymbol := strOrUndefined (depositTokenSymbol v)\<rparr>))"
      by simp
  qed
  have m2: "map (\<lambda>(k, v). (k, reloaded now v)) (vaults s) = vaults s"
    if "\<forall>v \<in> snd ` set (vaults s). depositTokenSymbol v \<noteq> Some []"
  proof -
    have "map (\<lambda>(k, v). (k, reloaded now v)) (vaults s) = map (\<lambda>kv. kv) (vaults s)"
    proof (intro map_cong refl)
      fix kv assume kv: "kv \<in> set (vaults s)"
      obtain k v where e: "kv = (k, v)" by (cases kv)
      from kv e have "v \<in> snd ` set (vaults s)" by force
      with c that have "createdAt v \<noteq> 0" "depositTokenDecimals v = None" "selfAcc v = None"
        "depositTokenSymbol v \<noteq> Some []" by auto
      then have "reloaded now v = v" by (rule reloaded_same)
      with e show "(case kv of (k, v) \<Rightarrow> (k, reloaded now v)) = kv" by simp
    qed
    then show ?thesis by simp
  qed
  have a: "loadState cfg now (saveState True s f)
       = s\<lparr>vaults := map (\<lambda>(k, v). (k, v\<lparr>depositTokenSymbol := strOrUndefined (depositTokenSymbol v)\<rparr>))
                         (vaults s)\<rparr>"
    using r m1 by simp
  have b: "loadState cfg now (saveState True s f) = s"
    if "\<forall>v \<in> snd ` set (vaults s). depositTokenSymbol v \<noteq> Some []"
    using r m2 [OF that] by simp
  from a b show ?thesis by blast
qed

text \<open>The theorem at a state with \<open>lastProcessedBlock = 0\<close>, \<open>lastCheckedBlock = 0\<close> and no
  \<open>depositTokenSymbol\<close>.\<close>

theorem loadState_saveState_roundtrip_witness:
  "loadState cfg98 1700000000123
       (saveState True \<lparr>lastProcessedBlock = 0, vaults = [(''0xab01'', vaultA)]\<rparr> NoFile)
     = \<lparr>lastProcessedBlock = 0, vaults = [(''0xab01'', vaultA)]\<rparr>"
  using loadState_saveState_roundtrip
    [of "\<lparr>lastProcessedBlock = 0, vaults = [(''0xab01'', vaultA)]\<rparr>" cfg98 1700000000123 NoFile]
  by (simp add: vaultA_def strOrUndefined_def)

text \<open>
  The round trip as the specification words it fails at both edge values it names, and
  at a field it does not name: a vault with \<open>createdAt = 0\<close> comes back with the clock's
  value (\<open>v.createdAt || Date.now()\<close>), one with the empty \<open>depositTokenSymbol\<close> comes
  back without it (\<open>v.depositTokenSymbol || undefined\<close>), and one with a \<open>selfAcc\<close> or
  \<open>depositTokenDecimals\<close> comes back without it (\<open>saveState\<close> does not write them).
\<close>

theorem loadState_saveState_counterexample:
  "loadState cfg98 1700000000123
       (saveState True \<lparr>lastProcessedBlock = 100, vaults = [(''0xab01'', vaultA\<lparr>createdAt := 0\<rparr>)]\<rparr> NoFile)
     \<noteq> \<lparr>lastProcessedBlock = 100, vaults = [(''0xab01'', vaultA\<lparr>createdAt := 0\<rparr>)]\<rparr>
   \<and> loadState cfg98 1700000000123
       (saveState True
          \<lparr>lastProcessedBlock = 100, vaults = [(''0xab01'', vaultA\<lparr>depositTokenSymbol := Some []\<rparr>)]\<rparr> NoFile)
     \<noteq> \<lparr>lastProcessedBlock = 100, vaults = [(''0xab01'', vaultA\<lparr>depositTokenSymbol := Some []\<rparr>)]\<rparr>
   \<and> loadState cfg98 1700000000123
       (saveState True
          \<lparr>lastProcessedBlock = 100, vaults = [(''0xab01'', vaultA\<lparr>selfAcc := Some ''0x01''\<rparr>)]\<rparr> NoFile)
     \<noteq> \<lparr>lastProcessedBlock = 100, vaults = [(''0xab01'', vaultA\<lparr>selfAcc := Some ''0x01''\<rparr>)]\<rparr>
   \<and> loadState cfg98 1700000000123
       (saveState True
          \<lparr>lastProcessedBlock = 100, vaults = [(''0xab01'', vaultA\<lparr>depositTokenDecimals := Some 6\<rparr>)]\<rparr> NoFile)
     \<noteq> \<lparr>lastProcessedBlock = 100, vaults = [(''0xab01'', vaultA\<lparr>depositTokenDecimals := Some 6\<rparr>)]\<rparr>"
  by (simp add: loadState_saveState reloaded_def vaultA_def strOrUndefined_def)

subsection \<open>Keys of the store and the block it reports\<close>

lemma obj_set_map_fst:
  "map fst (obj_set k v ob) = (if k \<in> set (map fst ob) then map fst ob else map fst ob @ [k])"
  by (induction ob) (fastforce simp: image_iff)+

lemma obj_set_distinct: "distinct (map fst ob) \<Longrightarrow> distinct (map fst (obj_set k v ob))"
  by (simp add: obj_set_map_fst)

lemma loadVaults_distinct_keys:
  "loadVaults now kvs acc = Some r \<Longrightarrow> distinct (map fst acc) \<Longrightarrow> distinct (map fst r)"
proof (induction kvs arbitrary: acc)
  case Nil
  then show ?case by simp
next
  case (Cons kv kvs)
  obtain k v where kv: "kv = (k, v)" by (cases kv)
  from Cons.prems(1) kv obtain vault where
    lv: "loadVault now v = Some vault" and
    rest: "loadVaults now kvs (obj_set k vault acc) = Some r"
    by (auto split: option.splits)
  from Cons.prems(2) have "distinct (map fst (obj_set k vault acc))"
    by (rule obj_set_distinct)
  with Cons.IH rest show ?case by blast
qed

lemma loadState_distinct: "distinct (map fst (vaults (loadState cfg now f)))"
proof (cases f)
  case (Doc d)
  show ?thesis
  proof (cases "loadVaults now (case j_vaults d of None \<Rightarrow> [] | Some vs \<Rightarrow> vs) []")
    case None
    with Doc show ?thesis by (simp add: loadState_def defaultState_def)
  next
    case (Some r)
    then have "distinct (map fst r)" by (rule loadVaults_distinct_keys) simp
    with Doc Some show ?thesis by (simp add: loadState_def)
  qed
qed (simp_all add: loadState_def defaultState_def)

lemma loadVault_None_now: "(loadVault n v = None) = (loadVault n' v = None)"
  by (simp add: loadVault_def split: option.splits)

lemma loadVaults_None_now:
  "(loadVaults n kvs acc = None) = (loadVaults n' kvs acc' = None)"
proof (induction kvs arbitrary: acc acc')
  case Nil
  then show ?case by simp
next
  case (Cons kv kvs)
  obtain k v where kv: "kv = (k, v)" by (cases kv)
  show ?case
  proof (cases "loadVault n v")
    case None
    then have "loadVault n' v = None" using loadVault_None_now [of n v n'] by simp
    with None kv show ?thesis by simp
  next
    case (Some a)
    then obtain b where b: "loadVault n' v = Some b"
      using loadVault_None_now [of n v n'] by (cases "loadVault n' v") auto
    from Cons.IH [of "obj_set k a acc" "obj_set k b acc'"] Some b kv show ?thesis by simp
  qed
qed

lemma loadState_block_now:
  "lastProcessedBlock (loadState cfg n f) = lastProcessedBlock (loadState cfg n' f)"
proof (cases f)
  case (Doc d)
  let ?es = "case j_vaults d of None \<Rightarrow> [] | Some vs \<Rightarrow> vs"
  show ?thesis
  proof (cases "loadVaults n ?es []")
    case None
    then have "loadVaults n' ?es [] = None" using loadVaults_None_now [of n ?es "[]" n' "[]"] by simp
    with None Doc show ?thesis by (simp add: loadState_def)
  next
    case (Some a)
    then obtain b where "loadVaults n' ?es [] = Some b"
      using loadVaults_None_now [of n ?es "[]" n' "[]"] by (cases "loadVaults n' ?es []") auto
    with Some Doc show ?thesis by (simp add: loadState_def)
  qed
qed (simp_all add: loadState_def)

lemma persistedBlock_load: "lastProcessedBlock (loadState cfg n f) = persistedBlock cfg f"
  unfolding persistedBlock_def by (rule loadState_block_now)

lemma persistedBlock_saveState:
  "distinct (map fst (vaults s)) \<Longrightarrow>
   persistedBlock cfg (saveState wr s f) = (if wr then lastProcessedBlock s else persistedBlock cfg f)"
proof (cases wr)
  case True
  assume "distinct (map fst (vaults s))"
  then have "loadState cfg 0 (saveState True s f)
             = s\<lparr>vaults := map (\<lambda>(k, v). (k, reloaded 0 v)) (vaults s)\<rparr>"
    by (rule loadState_saveState)
  with True show ?thesis by (simp add: persistedBlock_def)
next
  case False
  then show ?thesis by (simp add: saveState_def)
qed

lemma persistedBlock_addVault:
  "persistedBlock cfg (addVault cfg n wr vault f) = persistedBlock cfg f"
proof -
  let ?st = "loadState cfg n f"
  have "distinct (map fst (vaults (?st\<lparr>vaults := obj_set (toLowerCase (address vault)) vault (vaults ?st)\<rparr>)))"
    using loadState_distinct [of cfg n f] by (simp add: obj_set_distinct)
  then show ?thesis
    by (simp add: addVault_def Let_def persistedBlock_saveState persistedBlock_load)
qed

lemma persistedBlock_updateVault:
  "persistedBlock cfg (updateVault cfg n wr a upd f) = persistedBlock cfg f"
proof -
  let ?st = "loadState cfg n f"
  have "distinct (map fst (vaults (?st\<lparr>vaults := obj_set k v (vaults ?st)\<rparr>)))" for k v
    using loadState_distinct [of cfg n f] by (simp add: obj_set_distinct)
  then show ?thesis
    by (simp add: updateVault_def Let_def persistedBlock_saveState persistedBlock_load
        split: option.splits)
qed

subsection \<open>The tracker's steps leave the reported block alone\<close>

lemma disk_notify: "disk (notify n m) = disk m"
  by (simp add: notify_def)

lemma disk_logError: "disk (logError e m) = disk m"
  by (simp add: logError_def)

lemma disk_invalidate: "disk (invalidateLiveVaultsCache m) = disk m"
  by (simp add: invalidateLiveVaultsCache_def)

lemmas disk_simps = disk_notify disk_logError disk_invalidate

lemma persistedBlock_newVaultsLoop:
  "persistedBlock cfg (disk (snd (newVaultsLoop cfg w events m))) = persistedBlock cfg (disk m)"
proof (induction events arbitrary: m)
  case Nil
  then show ?case by simp
next
  case (Cons e events)
  show ?case
  proof (cases e)
    case RawCreated
    with Cons.IH show ?thesis by simp
  next
    case (AMMCreated ammAddress blockNo)
    then show ?thesis
      by (simp add: Let_def disk_simps persistedBlock_addVault Cons.IH
          split: option.splits prod.splits)
  qed
qed

lemma persistedBlock_monitorNewVaults:
  "persistedBlock cfg (disk (monitorNewVaults cfg w fromBlock toBlock m)) = persistedBlock cfg (disk m)"
proof (cases "queryAMMCreated w fromBlock toBlock")
  case None
  then show ?thesis by (simp add: monitorNewVaults_def disk_simps)
next
  case (Some events)
  obtain ok m' where r: "newVaultsLoop cfg w events m = (ok, m')"
    by (cases "newVaultsLoop cfg w events m")
  with persistedBlock_newVaultsLoop [of cfg w events m]
  have "persistedBlock cfg (disk m') = persistedBlock cfg (disk m)" by simp
  with Some r show ?thesis by (cases ok) (simp_all add: monitorNewVaults_def disk_simps)
qed

lemma persistedBlock_capEventsLoop:
  "persistedBlock cfg (disk (snd (capEventsLoop cfg w vault events m))) = persistedBlock cfg (disk m)"
proof (induction events arbitrary: m)
  case Nil
  then show ?case by simp
next
  case (Cons e events)
  show ?case
  proof (cases e)
    case RawCap
    with Cons.IH show ?thesis by simp
  next
    case (CapUpdated args blockNo)
    then show ?thesis
      by (cases args)
         (simp_all add: Let_def disk_simps persistedBlock_updateVault Cons.IH split: option.splits)
  qed
qed

lemma persistedBlock_capUpdatesLoop:
  "persistedBlock cfg (disk (capUpdatesLoop cfg w fromBlock toBlock vs m)) = persistedBlock cfg (disk m)"
proof (induction vs arbitrary: m)
  case Nil
  then show ?case by simp
next
  case (Cons vault vs)
  have step: "persistedBlock cfg (disk m') = persistedBlock cfg (disk m)"
    if "capEventsLoop cfg w vault events m = (ok, m')" for events ok m'
    using persistedBlock_capEventsLoop [of cfg w vault events m] that by simp
  show ?case
    by (auto simp: disk_simps Cons.IH step split: option.splits prod.splits bool.splits)
qed

lemma persistedBlock_monitorCapUpdates:
  "persistedBlock cfg (disk (monitorCapUpdates cfg w fromBlock toBlock m)) = persistedBlock cfg (disk m)"
  by (simp add: monitorCapUpdates_def persistedBlock_capUpdatesLoop)

lemma persistedBlock_backfillTokenSymbol:
  "persistedBlock cfg (disk (snd (backfillTokenSymbol cfg w vault m))) = persistedBlock cfg (disk m)"
  by (simp add: backfillTokenSymbol_def persistedBlock_updateVault split: option.splits)

lemma persistedBlock_checkVaultStatus:
  "persistedBlock cfg (disk (checkVaultStatus cfg w vault m)) = persistedBlock cfg (disk m)"
proof -
  obtain vault1 m1 where b: "backfillTokenSymbol cfg w vault m = (vault1, m1)"
    by (cases "backfillTokenSymbol cfg w vault m")
  with persistedBlock_backfillTokenSymbol [of cfg w vault m]
  have "persistedBlock cfg (disk m1) = persistedBlock cfg (disk m)" by simp
  then show ?thesis
    by (simp add: checkVaultStatus_def b Let_def disk_simps persistedBlock_updateVault
        split: option.splits prod.splits)
qed

lemma persistedBlock_fold_check:
  "persistedBlock cfg (disk (fold (checkVaultStatus cfg w) vs m)) = persistedBlock cfg (disk m)"
  by (induction vs arbitrary: m) (simp_all add: persistedBlock_checkVaultStatus)

lemma persistedBlock_fold_batches:
  "persistedBlock cfg (disk (fold (\<lambda>batch. fold (checkVaultStatus cfg w) batch) bs m))
     = persistedBlock cfg (disk m)"
  by (induction bs arbitrary: m) (simp_all add: persistedBlock_fold_check)

lemma persistedBlock_checkAllVaultStatuses:
  "persistedBlock cfg (disk (checkAllVaultStatuses cfg w m)) = persistedBlock cfg (disk m)"
  by (simp add: checkAllVaultStatuses_def persistedBlock_fold_batches)

lemma persistedBlock_monitorIteration:
  "persistedBlock cfg (disk (monitorIteration cfg w m))
     = (case getBlockNumber w of
          None \<Rightarrow> persistedBlock cfg (disk m)
        | Some currentBlock \<Rightarrow>
            if persistedBlock cfg (disk m) + 1 \<le> currentBlock \<and> diskWritable w
            then currentBlock else persistedBlock cfg (disk m))"
proof (cases "getBlockNumber w")
  case None
  then show ?thesis by (simp add: monitorIteration_def disk_simps)
next
  case (Some currentBlock)
  let ?from = "persistedBlock cfg (disk m) + 1"
  let ?m1 = "monitorNewVaults cfg w ?from currentBlock m"
  let ?m2 = "monitorCapUpdates cfg w ?from currentBlock ?m1"
  let ?m3 = "if currentBlock - lastStatusCheckBlock ?m2 \<ge> STATUS_CHECK_INTERVAL_BLOCKS
             then (checkAllVaultStatuses cfg w ?m2)\<lparr>lastStatusCheckBlock := currentBlock\<rparr>
             else ?m2"
  have p3: "persistedBlock cfg (disk ?m3) = persistedBlock cfg (disk m)"
    by (simp add: persistedBlock_checkAllVaultStatuses persistedBlock_monitorCapUpdates
        persistedBlock_monitorNewVaults)
  have d: "distinct (map fst (vaults ((loadState cfg (dateNow w) (disk ?m3))\<lparr>lastProcessedBlock := currentBlock\<rparr>)))"
    using loadState_distinct [of cfg "dateNow w" "disk ?m3"] by simp
  show ?thesis
  proof (cases "?from \<le> currentBlock")
    case True
    have "persistedBlock cfg (disk (monitorIteration cfg w m))
          = persistedBlock cfg (saveState (diskWritable w)
              ((loadState cfg (dateNow w) (disk ?m3))\<lparr>lastProcessedBlock := currentBlock\<rparr>) (disk ?m3))"
      using Some True by (simp add: monitorIteration_def Let_def persistedBlock_load)
    also have "\<dots> = (if diskWritable w then currentBlock else persistedBlock cfg (disk ?m3))"
      using persistedBlock_saveState [OF d] by simp
    finally show ?thesis using Some True p3 by simp
  next
    case False
    with Some show ?thesis by (simp add: monitorIteration_def Let_def persistedBlock_load)
  qed
qed

subsection \<open>The block pointer over iterations\<close>

lemma persistedBlock_step_le:
  "persistedBlock cfg (disk m) \<le> persistedBlock cfg (disk (monitorIteration cfg w m))"
  by (simp add: persistedBlock_monitorIteration split: option.splits)

lemma persistedBlock_run_le:
  "persistedBlock cfg (disk m) \<le> persistedBlock cfg (disk (runIterations cfg ws m))"
proof (induction ws arbitrary: m)
  case Nil
  then show ?case by (simp add: runIterations_def)
next
  case (Cons w ws)
  have "persistedBlock cfg (disk m) \<le> persistedBlock cfg (disk (monitorIteration cfg w m))"
    by (rule persistedBlock_step_le)
  also have "\<dots> \<le> persistedBlock cfg (disk (runIterations cfg ws (monitorIteration cfg w m)))"
    by (rule Cons.IH)
  finally show ?case by (simp add: runIterations_def)
qed

text \<open>
  Claim C5. Along every run of the monitor loop, whatever the chain answers in each pass
  (failing reads, a height below the stored one, a failing write), the
  \<open>lastProcessedBlock\<close> that the store reports at a later point of the run is never
  below the one it reported at an earlier point.
\<close>

theorem lastProcessedBlock_never_decreases:
  "persistedBlock cfg (disk (runIterations cfg ws m))
     \<le> persistedBlock cfg (disk (runIterations cfg (ws @ ws') m))"
proof -
  have "runIterations cfg (ws @ ws') m = runIterations cfg ws' (runIterations cfg ws m)"
    by (simp add: runIterations_def)
  then show ?thesis by (simp add: persistedBlock_run_le)
qed








subsection \<open>Creation events of known vaults\<close>

lemma getVault_known:
  "toLowerCase a \<in> set (map fst (vaults (loadState cfg now f))) \<Longrightarrow>
   \<exists>v. getVault cfg now f a = Some v"
proof -
  assume "toLowerCase a \<in> set (map fst (vaults (loadState cfg now f)))"
  then have "map_of (vaults (loadState cfg now f)) (toLowerCase a) \<noteq> None"
    by (simp add: map_of_eq_None_iff)
  then show ?thesis by (auto simp: getVault_def obj_get_def)
qed

lemma newVaultsLoop_known:
  "list_all (knownEvent (vaults (loadState cfg (dateNow w) (disk m)))) events \<Longrightarrow>
   newVaultsLoop cfg w events m = (True, m)"
proof (induction events)
  case Nil
  then show ?case by simp
next
  case (Cons e events)
  then have rest: "newVaultsLoop cfg w events m = (True, m)" by simp
  show ?case
  proof (cases e)
    case RawCreated
    with rest show ?thesis by simp
  next
    case (AMMCreated a blockNo)
    with Cons.prems have "toLowerCase a \<in> set (map fst (vaults (loadState cfg (dateNow w) (disk m))))"
      by (simp add: knownEvent_def)
    then obtain v where "getVault cfg (dateNow w) (disk m) a = Some v"
      using getVault_known by blast
    with AMMCreated rest show ?thesis by simp
  qed
qed

lemma distinct_key_once:
  "distinct (map fst ob) \<Longrightarrow> k \<in> set (map fst ob) \<Longrightarrow> length (filter (\<lambda>kv. fst kv = k) ob) = 1"
proof (induction ob)
  case Nil
  then show ?case by simp
next
  case (Cons p ob)
  show ?case
  proof (cases "fst p = k")
    case True
    with Cons.prems have "k \<notin> fst ` set ob" by auto
    then have "filter (\<lambda>kv. fst kv = k) ob = []" by (auto simp: filter_empty_conv)
    with True show ?thesis by simp
  next
    case False
    with Cons show ?thesis by auto
  qed
qed

text \<open>
  Claim C6. When every creation event returned by the query is for a vault whose
  lower-cased address is already a key of the store (whatever the casing of the address
  in the event), \<open>monitorNewVaults\<close> leaves the tracker exactly as it was: the state file
  is not written (no second record), nothing is handed to the notifier (no second
  \<open>VaultCreated\<close>), and no read of the chain is attempted. The store holds exactly
  one record under that lower-cased key.
\<close>

theorem known_creation_event_is_noop:
  "queryAMMCreated w fromBlock toBlock = Some events \<Longrightarrow>
   list_all (knownEvent (vaults (loadState cfg (dateNow w) (disk m)))) events \<Longrightarrow>
     monitorNewVaults cfg w fromBlock toBlock m = m
     \<and> (\<forall>a blockNo. AMMCreated a blockNo \<in> set events \<longrightarrow>
           length (filter (\<lambda>kv. fst kv = toLowerCase a)
                     (vaults (loadState cfg (dateNow w) (disk m)))) = 1)"
proof (intro conjI allI impI)
  assume q: "queryAMMCreated w fromBlock toBlock = Some events"
    and k: "list_all (knownEvent (vaults (loadState cfg (dateNow w) (disk m)))) events"
  from k have "newVaultsLoop cfg w events m = (True, m)" by (rule newVaultsLoop_known)
  with q show "monitorNewVaults cfg w fromBlock toBlock m = m"
    by (simp add: monitorNewVaults_def)
next
  fix a blockNo
  assume k: "list_all (knownEvent (vaults (loadState cfg (dateNow w) (disk m)))) events"
    and e: "AMMCreated a blockNo \<in> set events"
  from k e have "knownEvent (vaults (loadState cfg (dateNow w) (disk m))) (AMMCreated a blockNo)"
    by (simp add: list_all_iff)
  then have "toLowerCase a \<in> set (map fst (vaults (loadState cfg (dateNow w) (disk m))))"
    by (simp add: knownEvent_def)
  with loadState_distinct [of cfg "dateNow w" "disk m"]
  show "length (filter (\<lambda>kv. fst kv = toLowerCase a)
                  (vaults (loadState cfg (dateNow w) (disk m)))) = 1"
    by (rule distinct_key_once)
qed

lemma monitorB_vaults:
  "vaults (loadState cfg now (disk monitorB)) = [(''0xab01'', vaultA)]"
  by (simp add: monitorB_def monitorWith_def loadState_saveState reloaded_def vaultA_def
      strOrUndefined_def)

lemma lower_0xAB01: "toLowerCase ''0xAB01'' = ''0xab01''" "toLowerCase ''0xAb01'' = ''0xab01''"
  by code_simp+

text \<open>
  The theorem at a store that holds the vault under \<open>0xab01\<close> and a query that returns its
  creation event with the address written \<open>0xAB01\<close> and \<open>0xAb01\<close>.
\<close>

theorem known_creation_event_is_noop_witness:
  "monitorNewVaults cfg98 chainReplay 111 115 monitorB = monitorB
   \<and> length (filter (\<lambda>kv. fst kv = ''0xab01'')
               (vaults (loadState cfg98 (dateNow chainReplay) (disk monitorB)))) = 1"
proof -
  have q: "queryAMMCreated chainReplay 111 115
           = Some [AMMCreated ''0xAB01'' 103, RawCreated, AMMCreated ''0xAb01'' 103]"
    by (simp add: chainReplay_def chainA_def)
  have k: "list_all (knownEvent (vaults (loadState cfg98 (dateNow chainReplay) (disk monitorB))))
             [AMMCreated ''0xAB01'' 103, RawCreated, AMMCreated ''0xAb01'' 103]"
    by (simp add: monitorB_vaults knownEvent_def lower_0xAB01)
  from known_creation_event_is_noop [OF q k] lower_0xAB01 show ?thesis by auto
qed

subsection \<open>Loading a missing or broken state file\<close>

lemma defaultState_eq:
  "defaultState cfg
     = \<lparr>lastProcessedBlock = (case START_BLOCK cfg of None \<Rightarrow> 0 | Some b \<Rightarrow> b), vaults = []\<rparr>"
  by (simp add: defaultState_def numOr_def split: option.splits)

text \<open>
  Claim C10. When the state file is absent, cannot be read, is not JSON, or holds a cap,
  supply or maturity on which \<open>BigInt\<close> throws, \<open>loadState\<close> returns the default state:
  no vaults, and \<open>lastProcessedBlock\<close> equal to \<open>START_BLOCK\<close>, or 0 when that is unset
  (the model's \<open>loadState\<close> is total: the error is never propagated). The next
  \<open>addVault\<close> then overwrites the file with that default state plus the new vault, so
  nothing of the broken file is kept.
\<close>

theorem loadState_defaults_on_failure:
  "f = NoFile \<or> f = Unreadable \<or> f = Malformed
     \<or> (\<exists>d. f = Doc d \<and> loadVaults now (case j_vaults d of None \<Rightarrow> [] | Some vs \<Rightarrow> vs) [] = None) \<Longrightarrow>
     loadState cfg now f
       = \<lparr>lastProcessedBlock = (case START_BLOCK cfg of None \<Rightarrow> 0 | Some b \<Rightarrow> b), vaults = []\<rparr>
     \<and> addVault cfg now True vault f
       = Doc \<lparr>j_lastProcessedBlock = Some (case START_BLOCK cfg of None \<Rightarrow> 0 | Some b \<Rightarrow> b),
              j_vaults = Some [(toLowerCase (address vault), saveVault vault)]\<rparr>"
proof -
  assume "f = NoFile \<or> f = Unreadable \<or> f = Malformed
     \<or> (\<exists>d. f = Doc d \<and> loadVaults now (case j_vaults d of None \<Rightarrow> [] | Some vs \<Rightarrow> vs) [] = None)"
  then have l: "loadState cfg now f = defaultState cfg"
    by (auto simp: loadState_def)
  then have "addVault cfg now True vault f
       = Doc \<lparr>j_lastProcessedBlock = Some (lastProcessedBlock (defaultState cfg)),
              j_vaults = Some [(toLowerCase (address vault), saveVault vault)]\<rparr>"
    by (simp add: addVault_def Let_def saveState_def defaultState_def)
  with l show ?thesis by (simp add: defaultState_eq)
qed

lemma bad_cap_text: "StringToBigInt ''12x'' = None"
  by code_simp

text \<open>
  The theorem at a file that is not JSON and at a missing file, with \<open>START_BLOCK = 250\<close>,
  and at an unreadable file and a document whose cap reads \<open>12x\<close>, with
  \<open>START_BLOCK\<close> unset.
\<close>

theorem loadState_defaults_on_failure_witness:
  "loadState cfgStart 1700000000000 Malformed = \<lparr>lastProcessedBlock = 250, vaults = []\<rparr>
   \<and> loadState cfgStart 1700000000000 NoFile = \<lparr>lastProcessedBlock = 250, vaults = []\<rparr>
   \<and> loadState cfg98 1700000000000 Unreadable = \<lparr>lastProcessedBlock = 0, vaults = []\<rparr>
   \<and> loadState cfg98 1700000000000 docBadCap = \<lparr>lastProcessedBlock = 0, vaults = []\<rparr>
   \<and> addVault cfg98 1700000000000 True vaultA docBadCap
       = Doc \<lparr>j_lastProcessedBlock = Some 0, j_vaults = Some [(''0xab01'', saveVault vaultA)]\<rparr>"
proof -
  have bad: "\<exists>d. docBadCap = Doc d
               \<and> loadVaults 1700000000000 (case j_vaults d of None \<Rightarrow> [] | Some vs \<Rightarrow> vs) [] = None"
    by (simp add: docBadCap_def loadVault_def saveVault_def bad_cap_text)
  have low: "toLowerCase (address vaultA) = ''0xab01''"
    by (simp add: vaultA_def lower_0xAB01)
  show ?thesis
    using loadState_defaults_on_failure [of Malformed 1700000000000 cfgStart vaultA]
      loadState_defaults_on_failure [of NoFile 1700000000000 cfgStart vaultA]
      loadState_defaults_on_failure [of Unreadable 1700000000000 cfg98 vaultA]
      loadState_defaults_on_failure [of docBadCap 1700000000000 cfg98 vaultA] bad low
    by (simp add: cfgStart_def cfg98_def)
qed

subsection \<open>Cap-update detection on concrete stores\<close>

lemma getAllVaults_monitorWith:
  assumes "distinct (map fst (vaults st))"
  shows "getAllVaults cfg now (disk (monitorWith st lastCheck)) = map (reloaded now \<circ> snd) (vaults st)"
  using loadState_saveState [OF assms, of cfg now NoFile]
  by (simp add: getAllVaults_def monitorWith_def comp_def case_prod_unfold)

lemma reloaded_vaultF: "reloaded now vaultF = vaultF"
  by (simp add: reloaded_def vaultF_def vaultA_def strOrUndefined_def)

lemma reloaded_vaultE: "reloaded now vaultE = vaultE"
  by (simp add: reloaded_def vaultE_def vaultA_def strOrUndefined_def)

lemma chainRaise_reads:
  "queryCapUpdated chainRaise a fromBlock toBlock = Some [CapUpdated [2000] 112]"
  "getLatestFTime chainRaise a = Some 1500"
  "ammTotalSupply chainRaise a = Some 990"
  "ammTotalSupplyCap chainRaise a = Some 2000"
  "diskWritable chainRaise"
  by (simp_all add: chainRaise_def chainA_def)

lemma not_filled_990_2000: "\<not> isVaultFilled cfg98 990 2000"
  by (simp add: isVaultFilled_def threshold_cfg98 bigint_div_def)

text \<open>
  Claim C4 on the code. The store holds a filled, unexpired vault; a cap-changed event
  raises its cap from 1000 to 2000 with supply 990, which makes it not filled. The
  tracker hands \<open>CapRaised\<close> and then \<open>NewVault\<close> (the "New Vault Created" message, with
  \<open>isFilled = false\<close>) to the notifier; no \<open>VaultAvailable\<close> is sent.
\<close>

theorem cap_event_unfill_sends_NewVault:
  "sent (monitorCapUpdates cfg98 chainRaise 111 115 monitorF)
     = [CapRaised (vaultF\<lparr>totalSupplyCap := 2000, lastKnownTotalSupply := 990\<rparr>) 1000 2000 990,
        NewVault (vaultF\<lparr>totalSupplyCap := 2000, lastKnownTotalSupply := 990, isFilled := False\<rparr>) False]
   \<and> filter isVaultAvailable (sent (monitorCapUpdates cfg98 chainRaise 111 115 monitorF)) = []"
proof -
  have v: "getAllVaults cfg98 (dateNow chainRaise) (disk monitorF) = [vaultF]"
    by (simp add: monitorF_def getAllVaults_monitorWith reloaded_vaultF)
  have f: "isFilled vaultF" "totalSupplyCap vaultF = 1000" "maturity vaultF = 2000"
    by (simp_all add: vaultF_def vaultA_def)
  have s: "sent monitorF = []" by (simp add: monitorF_def monitorWith_def)
  have "sent (monitorCapUpdates cfg98 chainRaise 111 115 monitorF)
     = [CapRaised (vaultF\<lparr>totalSupplyCap := 2000, lastKnownTotalSupply := 990\<rparr>) 1000 2000 990,
        NewVault (vaultF\<lparr>totalSupplyCap := 2000, lastKnownTotalSupply := 990, isFilled := False\<rparr>) False]"
    by (simp add: monitorCapUpdates_def v f s chainRaise_reads Let_def
        not_filled_990_2000 notify_def invalidateLiveVaultsCache_def)
  then show ?thesis by (simp add: isVaultAvailable_def)
qed

text \<open>
  Claim C7 on the code. The store holds an expired vault followed by an unexpired one, and
  the unexpired vault has a cap-changed event in the range. \<open>monitorCapUpdates\<close> returns
  at the expired vault: the tracker is left as it was and no \<open>CapRaised\<close> is sent for the
  unexpired vault. With the two records in the other order the event is processed.
\<close>

theorem expired_vault_ends_cap_update_detection:
  "queryCapUpdated chainRaise (address vaultF) 111 115 = Some [CapUpdated [2000] 112]
   \<and> getLatestFTime chainRaise (marketAddress vaultF) = Some 1500 \<and> maturity vaultF = 2000
   \<and> monitorCapUpdates cfg98 chainRaise 111 115 monitorEF = monitorEF
   \<and> sent monitorEF = []
   \<and> filter isCapRaised (sent (monitorCapUpdates cfg98 chainRaise 111 115 monitorFE))
       = [CapRaised (vaultF\<lparr>totalSupplyCap := 2000, lastKnownTotalSupply := 990\<rparr>) 1000 2000 990]"
proof -
  have e: "maturity vaultE = 1000" "marketAddress vaultE = ''0xM1''"
    by (simp_all add: vaultE_def vaultA_def)
  have f: "isFilled vaultF" "totalSupplyCap vaultF = 1000" "maturity vaultF = 2000"
    "marketAddress vaultF = ''0xM1''"
    by (simp_all add: vaultF_def vaultA_def)
  have ne: "''0xee02'' \<noteq> ''0xab01''" by simp
  have vEF: "getAllVaults cfg98 (dateNow chainRaise) (disk monitorEF) = [vaultE, vaultF]"
    by (simp add: monitorEF_def getAllVaults_monitorWith reloaded_vaultF reloaded_vaultE)
  have vFE: "getAllVaults cfg98 (dateNow chainRaise) (disk monitorFE) = [vaultF, vaultE]"
    by (simp add: monitorFE_def getAllVaults_monitorWith reloaded_vaultF reloaded_vaultE)
  have a: "monitorCapUpdates cfg98 chainRaise 111 115 monitorEF = monitorEF"
    by (simp add: monitorCapUpdates_def vEF e chainRaise_reads)
  have s: "sent monitorEF = []" "sent monitorFE = []"
    by (simp_all add: monitorEF_def monitorFE_def monitorWith_def)
  have b: "sent (monitorCapUpdates cfg98 chainRaise 111 115 monitorFE)
       = [CapRaised (vaultF\<lparr>totalSupplyCap := 2000, lastKnownTotalSupply := 990\<rparr>) 1000 2000 990,
          NewVault (vaultF\<lparr>totalSupplyCap := 2000, lastKnownTotalSupply := 990, isFilled := False\<rparr>) False]"
    by (simp add: monitorCapUpdates_def vFE e f s chainRaise_reads Let_def
        not_filled_990_2000 notify_def invalidateLiveVaultsCache_def)
  show ?thesis
    using a s b f by (simp add: isCapRaised_def chainRaise_reads)
qed

subsection \<open>The live-vaults cache and the status sweep\<close>

















lemma vaultA_fields:
  "address vaultA = ''0xAb01''" "totalSupplyCap vaultA = 1000" "lastKnownTotalSupply vaultA = 500"
  "\<not> isFilled vaultA" "maturity vaultA = 2000" "marketAddress vaultA = ''0xM1''"
  "depositTokenSymbol vaultA = None" "createdAt vaultA = 1700000000000"
  by (simp_all add: vaultA_def)

lemma reloaded_vaultA: "reloaded now vaultA = vaultA"
  by (simp add: reloaded_def vaultA_def strOrUndefined_def)










subsection \<open>The live-vault query\<close>

lemma liveEntry_Some_iff: "(\<exists>e. liveEntry cfg w v = Some e) = isLive cfg w v"
  by (auto simp: liveEntry_def isLive_def readSupplyAndCap_def Let_def split: option.splits)

lemma liveEntry_fields:
  assumes "liveEntry cfg w v = Some e"
  shows "address e = address v"
    and "\<exists>supply cap. ammTotalSupply w (address v) = Some supply \<and> ammTotalSupplyCap w (address v) = Some cap
           \<and> lastKnownTotalSupply e = supply \<and> totalSupplyCap e = cap
           \<and> utilization e = (if cap > 0 then of_int (bigint_div (supply * 10000) cap) / 100 else 0)"
  using assms
  by (auto simp: liveEntry_def readSupplyAndCap_def Let_def VaultState.defs liveVault.defs
      split: option.splits if_splits)

lemma map_filter_addresses:
  "map address (List.map_filter (liveEntry cfg w) vs) = map address (filter (isLive cfg w) vs)"
proof (induction vs)
  case Nil
  then show ?case by (simp add: List.map_filter_simps)
next
  case (Cons v vs)
  show ?case
  proof (cases "liveEntry cfg w v")
    case None
    then have "\<not> isLive cfg w v" using liveEntry_Some_iff [of cfg w v] by simp
    with None Cons show ?thesis by (simp add: List.map_filter_simps)
  next
    case (Some e)
    then have "isLive cfg w v" using liveEntry_Some_iff [of cfg w v] by auto
    with Some Cons liveEntry_fields(1) [OF Some] show ?thesis
      by (simp add: List.map_filter_simps)
  qed
qed

lemma set_map_filter: "set (List.map_filter f xs) = {y. \<exists>x \<in> set xs. f x = Some y}"
  by (induction xs) (auto simp: List.map_filter_simps split: option.splits)

text \<open>
  Claim C9, as the code has it. The live-vault query goes through every stored record and
  lists a vault exactly when its market time, supply and cap can be read, the time is
  before maturity (a time equal to maturity counts as expired) and the vault is not filled
  under the supply and cap just read. Every listed entry carries that supply and cap and
  the utilization \<open>((supply * 10000) / cap) / 100\<close> with the inner division truncated to
  whole basis points (0 when the cap is 0), and the list is in ascending order of
  utilization.
\<close>

theorem getLiveVaults_lists_live_vaults_sorted:
  "sorted (map utilization (getLiveVaults cfg w m))
   \<and> mset (map address (getLiveVaults cfg w m))
       = mset (map address (filter (isLive cfg w) (getAllVaults cfg (dateNow w) (disk m))))
   \<and> (\<forall>e \<in> set (getLiveVaults cfg w m).
         \<exists>supply cap. ammTotalSupply w (address e) = Some supply
           \<and> ammTotalSupplyCap w (address e) = Some cap
           \<and> lastKnownTotalSupply e = supply \<and> totalSupplyCap e = cap
           \<and> utilization e = (if cap > 0 then of_int (bigint_div (supply * 10000) cap) / 100 else 0))
   \<and> (\<forall>v. isLive cfg w v \<longrightarrow>
         (\<exists>latestFTime. getLatestFTime w (marketAddress v) = Some latestFTime \<and> latestFTime < maturity v))"
proof (intro conjI ballI allI impI)
  show "sorted (map utilization (getLiveVaults cfg w m))"
    by (simp add: getLiveVaults_def)
next
  have "mset (map address (getLiveVaults cfg w m))
        = mset (map address (List.map_filter (liveEntry cfg w) (getAllVaults cfg (dateNow w) (disk m))))"
    by (simp add: getLiveVaults_def)
  then show "mset (map address (getLiveVaults cfg w m))
       = mset (map address (filter (isLive cfg w) (getAllVaults cfg (dateNow w) (disk m))))"
    by (simp add: map_filter_addresses)
next
  fix e assume "e \<in> set (getLiveVaults cfg w m)"
  then obtain v where "liveEntry cfg w v = Some e"
    by (auto simp: getLiveVaults_def set_map_filter)
  from liveEntry_fields [OF this]
  show "\<exists>supply cap. ammTotalSupply w (address e) = Some supply
           \<and> ammTotalSupplyCap w (address e) = Some cap
           \<and> lastKnownTotalSupply e = supply \<and> totalSupplyCap e = cap
           \<and> utilization e = (if cap > 0 then of_int (bigint_div (supply * 10000) cap) / 100 else 0)"
    by auto
next
  fix v assume "isLive cfg w v"
  then show "\<exists>latestFTime. getLatestFTime w (marketAddress v) = Some latestFTime \<and> latestFTime < maturity v"
    by (auto simp: isLive_def split: option.splits)
qed

lemma chainThird_reads:
  "getLatestFTime chainThird a = Some 1500"
  "ammTotalSupply chainThird a = Some 1"
  "ammTotalSupplyCap chainThird a = Some 3"
  "descriptorTokenId chainThird a = None"
  "dateNow chainThird = 1700000000000"
  by (simp_all add: chainThird_def chainA_def)

lemma chainTwo_reads:
  "getLatestFTime chainTwo a = Some 1500"
  "ammTotalSupply chainTwo a = (if a = ''0xCc03'' then Some 100 else Some 500)"
  "ammTotalSupplyCap chainTwo a = Some 1000"
  "descriptorTokenId chainTwo a = None"
  "dateNow chainTwo = 1700000000000"
  by (simp_all add: chainTwo_def chainA_def)

lemma not_filled_samples:
  "\<not> isVaultFilled cfg98 1 3" "\<not> isVaultFilled cfg98 500 1000" "\<not> isVaultFilled cfg98 100 1000"
  by (simp_all add: isVaultFilled_def threshold_cfg98 bigint_div_def)

lemma live_third:
  "getLiveVaults cfg98 chainThird monitorB
     = [VaultState.extend
          (vaultA\<lparr>lastKnownTotalSupply := 1, totalSupplyCap := 3, depositTokenSymbol := Some ''BA''\<rparr>)
          (liveVault.fields ''BA'' (3333 / 100))]"
proof -
  have v: "getAllVaults cfg98 1700000000000 (disk monitorB) = [vaultA]"
    by (simp add: getAllVaults_def monitorB_vaults)
  have e: "liveEntry cfg98 chainThird vaultA
           = Some (VaultState.extend
                (vaultA\<lparr>lastKnownTotalSupply := 1, totalSupplyCap := 3, depositTokenSymbol := Some ''BA''\<rparr>)
                (liveVault.fields ''BA'' (3333 / 100)))"
    by (simp add: liveEntry_def chainThird_reads vaultA_fields readSupplyAndCap_def
        not_filled_samples strOrUndefined_def fetchDepositTokenSymbol_def Let_def bigint_div_def)
       (simp add: vaultA_def)
  show ?thesis
    by (simp add: getLiveVaults_def chainThird_reads v List.map_filter_simps e)
qed

text \<open>
  The claim fails on the code where the basis points are not whole: with supply 1 and cap
  3 the listed utilization is 33.33, which is not \<open>1 / 3 * 100\<close>.
\<close>

theorem utilization_truncated_counterexample:
  "map lastKnownTotalSupply (getLiveVaults cfg98 chainThird monitorB) = [1]
   \<and> map totalSupplyCap (getLiveVaults cfg98 chainThird monitorB) = [3]
   \<and> map utilization (getLiveVaults cfg98 chainThird monitorB) = [3333 / 100]
   \<and> (3333 / 100 :: rat) \<noteq> 1 / 3 * 100"
  by (simp add: live_third VaultState.defs liveVault.defs)

lemma live_two:
  "map address (getLiveVaults cfg98 chainTwo monitorAG) = [''0xCc03'', ''0xAb01'']
   \<and> map utilization (getLiveVaults cfg98 chainTwo monitorAG) = [10, 50]"
proof -
  have g: "reloaded now vaultG = vaultG" for now
    by (simp add: reloaded_def vaultG_def vaultA_def strOrUndefined_def)
  have v: "getAllVaults cfg98 1700000000000 (disk monitorAG) = [vaultA, vaultG]"
    by (simp add: monitorAG_def getAllVaults_monitorWith reloaded_vaultA g)
  have gf: "address vaultG = ''0xCc03''" "maturity vaultG = 2000" "marketAddress vaultG = ''0xM1''"
    "depositTokenSymbol vaultG = None" "symbol vaultG = ''BA''" "symbol vaultA = ''BA''"
    by (simp_all add: vaultG_def vaultA_def)
  have ea: "liveEntry cfg98 chainTwo vaultA
           = Some (VaultState.extend
                (vaultA\<lparr>lastKnownTotalSupply := 500, totalSupplyCap := 1000, depositTokenSymbol := Some ''BA''\<rparr>)
                (liveVault.fields ''BA'' 50))"
    by (simp add: liveEntry_def chainTwo_reads vaultA_fields gf readSupplyAndCap_def
        not_filled_samples strOrUndefined_def fetchDepositTokenSymbol_def Let_def bigint_div_def)
  have eg: "liveEntry cfg98 chainTwo vaultG
           = Some (VaultState.extend
                (vaultG\<lparr>lastKnownTotalSupply := 100, totalSupplyCap := 1000, depositTokenSymbol := Some ''BA''\<rparr>)
                (liveVault.fields ''BA'' 10))"
    by (simp add: liveEntry_def chainTwo_reads gf readSupplyAndCap_def
        not_filled_samples strOrUndefined_def fetchDepositTokenSymbol_def Let_def bigint_div_def)
  show ?thesis
    by (simp add: getLiveVaults_def chainTwo_reads v List.map_filter_simps ea eg
        VaultState.defs liveVault.defs gf vaultA_fields)
qed

text \<open>
  The theorem at a store of two live vaults: the one stored second has the lower
  utilization and is listed first.
\<close>

theorem getLiveVaults_lists_live_vaults_sorted_witness:
  "sorted (map utilization (getLiveVaults cfg98 chainTwo monitorAG))
   \<and> map address (getLiveVaults cfg98 chainTwo monitorAG) = [''0xCc03'', ''0xAb01'']
   \<and> map utilization (getLiveVaults cfg98 chainTwo monitorAG) = [10, 50]
   \<and> map address (getAllVaults cfg98 (dateNow chainTwo) (disk monitorAG)) = [''0xAb01'', ''0xCc03'']
   \<and> list_all (\<lambda>e. ammTotalSupply chainTwo (address e) = Some (lastKnownTotalSupply e)
                     \<and> ammTotalSupplyCap chainTwo (address e) = Some (totalSupplyCap e))
        (getLiveVaults cfg98 chainTwo monitorAG)
   \<and> isLive cfg98 chainTwo vaultA
   \<and> (\<exists>latestFTime. getLatestFTime chainTwo (marketAddress vaultA) = Some latestFTime
          \<and> latestFTime < maturity vaultA)"
proof -
  have g: "reloaded now vaultG = vaultG" for now
    by (simp add: reloaded_def vaultG_def vaultA_def strOrUndefined_def)
  have v: "map address (getAllVaults cfg98 (dateNow chainTwo) (disk monitorAG)) = [''0xAb01'', ''0xCc03'']"
    by (simp add: monitorAG_def getAllVaults_monitorWith reloaded_vaultA g)
       (simp add: vaultG_def vaultA_def)
  have l: "isLive cfg98 chainTwo vaultA"
    by (simp add: isLive_def chainTwo_reads vaultA_fields not_filled_samples)
  note t = getLiveVaults_lists_live_vaults_sorted [of cfg98 chainTwo monitorAG]
  from t have s: "sorted (map utilization (getLiveVaults cfg98 chainTwo monitorAG))" by blast
  from t have "\<forall>e \<in> set (getLiveVaults cfg98 chainTwo monitorAG).
      ammTotalSupply chainTwo (address e) = Some (lastKnownTotalSupply e)
      \<and> ammTotalSupplyCap chainTwo (address e) = Some (totalSupplyCap e)"
    by fastforce
  then have a: "list_all (\<lambda>e. ammTotalSupply chainTwo (address e) = Some (lastKnownTotalSupply e)
                     \<and> ammTotalSupplyCap chainTwo (address e) = Some (totalSupplyCap e))
        (getLiveVaults cfg98 chainTwo monitorAG)"
    by (simp add: list_all_iff)
  from t l have e: "\<exists>latestFTime. getLatestFTime chainTwo (marketAddress vaultA) = Some latestFTime
          \<and> latestFTime < maturity vaultA"
    by blast
  from s live_two v a l e show ?thesis by blast
qed

end
